theory Spec2Isabelle
  imports Complex_Main "HOL-Library.Word" "HOL-Library.Monad_Syntax" "HOL-Library.Sublist"
begin

chapter \<open>CallBrain: audio normalisation and analysis orchestration\<close>

text \<open>
  A shallow embedding of \<^verbatim>\<open>services/geminiService.ts\<close>: the WAV encoder
  (\<^verbatim>\<open>writeWavHeader\<close>, \<^verbatim>\<open>audioBufferToWav\<close>), the response parser
  (\<^verbatim>\<open>cleanAndParseJSON\<close>), the MIME resolution (\<^verbatim>\<open>getMimeType\<close>) and the
  orchestrator (\<^verbatim>\<open>analyzeAudio\<close>). Platform services (audio decoding, the file
  reader, the remote model, \<^verbatim>\<open>JSON.parse\<close>) are parameters of the model.

  Strings are lists of code units below 256; JavaScript numbers that hold sizes, counts and
  offsets are natural numbers (the source's arithmetic on them is exact below \<open>2^53\<close>).
\<close>

section \<open>JavaScript numbers\<close>

text \<open>
  A sample read from a \<^verbatim>\<open>Float32Array\<close> is a binary32 value: a dyadic rational with at
  most 24 significant bits, an infinity or NaN. Its products with \<^verbatim>\<open>0x8000\<close> and
  \<^verbatim>\<open>0x7FFF\<close> need at most 39 significant bits, so binary64 computes them without
  rounding, and arithmetic on reals gives the same values.
\<close>

datatype js_number = Finite real | PosInfinity | NegInfinity | NaN

fun Math_min :: "js_number \<Rightarrow> js_number \<Rightarrow> js_number" where
  "Math_min NaN y = NaN"
| "Math_min x NaN = NaN"
| "Math_min NegInfinity y = NegInfinity"
| "Math_min x NegInfinity = NegInfinity"
| "Math_min PosInfinity y = y"
| "Math_min x PosInfinity = x"
| "Math_min (Finite x) (Finite y) = Finite (min x y)"

fun Math_max :: "js_number \<Rightarrow> js_number \<Rightarrow> js_number" where
  "Math_max NaN y = NaN"
| "Math_max x NaN = NaN"
| "Math_max PosInfinity y = PosInfinity"
| "Math_max x PosInfinity = PosInfinity"
| "Math_max NegInfinity y = y"
| "Math_max x NegInfinity = x"
| "Math_max (Finite x) (Finite y) = Finite (max x y)"

text \<open>The relational operator \<^verbatim>\<open><\<close>: false whenever an operand is NaN.\<close>

fun js_less :: "js_number \<Rightarrow> js_number \<Rightarrow> bool" where
  "js_less (Finite x) (Finite y) = (x < y)"
| "js_less NegInfinity (Finite y) = True"
| "js_less NegInfinity PosInfinity = True"
| "js_less (Finite x) PosInfinity = True"
| "js_less x y = False"

fun js_times :: "js_number \<Rightarrow> js_number \<Rightarrow> js_number" where
  "js_times (Finite x) (Finite y) = Finite (x * y)"
| "js_times NaN y = NaN"
| "js_times x NaN = NaN"
| "js_times x y =
     (if x = Finite 0 \<or> y = Finite 0 then NaN
      else if js_less x (Finite 0) = js_less y (Finite 0) then PosInfinity
      else NegInfinity)"

text \<open>Truncation towards zero, the first step of every integer conversion.\<close>

definition js_truncate :: "real \<Rightarrow> int" where
  "js_truncate x = (if x < 0 then - \<lfloor>- x\<rfloor> else \<lfloor>x\<rfloor>)"

text \<open>
  \<^verbatim>\<open>ToInt16\<close>: NaN and the infinities give 0; a finite number is truncated, reduced
  modulo \<open>2^16\<close> and read as two's complement.
\<close>

fun ToInt16 :: "js_number \<Rightarrow> int" where
  "ToInt16 (Finite x) =
     (let int16bit = js_truncate x mod 2 ^ 16
      in if int16bit \<ge> 2 ^ 15 then int16bit - 2 ^ 16 else int16bit)"
| "ToInt16 x = 0"

section \<open>DataView\<close>

type_synonym byte = "8 word"

text \<open>The \<open>n\<close> bytes of a value below \<open>256^n\<close>, in the requested byte order.\<close>

definition rawBytes :: "nat \<Rightarrow> nat \<Rightarrow> bool \<Rightarrow> byte list" where
  "rawBytes n v littleEndian =
     (let bs = map (\<lambda>k. of_nat (v div 256 ^ k mod 256)) [0..<n]
      in if littleEndian then bs else rev bs)"

definition splice :: "byte list \<Rightarrow> nat \<Rightarrow> byte list \<Rightarrow> byte list" where
  "splice view byteOffset bs = take byteOffset view @ bs @ drop (byteOffset + length bs) view"

text \<open>A write that does not fit in the view throws a \<^verbatim>\<open>RangeError\<close>: \<open>None\<close>.\<close>

definition setViewValue :: "byte list \<Rightarrow> nat \<Rightarrow> byte list \<Rightarrow> byte list option" where
  "setViewValue view byteOffset bs =
     (if byteOffset + length bs \<le> length view then Some (splice view byteOffset bs) else None)"

definition setUint32 :: "byte list \<Rightarrow> nat \<Rightarrow> nat \<Rightarrow> bool \<Rightarrow> byte list option" where
  "setUint32 view byteOffset v littleEndian =
     setViewValue view byteOffset (rawBytes 4 (v mod 2 ^ 32) littleEndian)"

definition setUint16 :: "byte list \<Rightarrow> nat \<Rightarrow> nat \<Rightarrow> bool \<Rightarrow> byte list option" where
  "setUint16 view byteOffset v littleEndian =
     setViewValue view byteOffset (rawBytes 2 (v mod 2 ^ 16) littleEndian)"

definition setInt16 :: "byte list \<Rightarrow> nat \<Rightarrow> js_number \<Rightarrow> bool \<Rightarrow> byte list option" where
  "setInt16 view byteOffset x littleEndian =
     setViewValue view byteOffset (rawBytes 2 (nat (ToInt16 x mod 2 ^ 16)) littleEndian)"

text \<open>
  The readers of \<^verbatim>\<open>DataView\<close>, with which a consumer of the container re-parses the header
  and the samples. The source only writes; these are the platform's inverse operations.
\<close>

definition bytesToNat :: "byte list \<Rightarrow> nat" where
  "bytesToNat bs = foldr (\<lambda>b acc. unat b + 256 * acc) bs 0"

definition getViewValue :: "byte list \<Rightarrow> nat \<Rightarrow> nat \<Rightarrow> bool \<Rightarrow> nat option" where
  "getViewValue view byteOffset n littleEndian =
     (if byteOffset + n \<le> length view
      then (let bs = take n (drop byteOffset view)
            in Some (bytesToNat (if littleEndian then bs else rev bs)))
      else None)"

definition getUint32 :: "byte list \<Rightarrow> nat \<Rightarrow> bool \<Rightarrow> nat option" where
  "getUint32 view byteOffset littleEndian = getViewValue view byteOffset 4 littleEndian"

definition getUint16 :: "byte list \<Rightarrow> nat \<Rightarrow> bool \<Rightarrow> nat option" where
  "getUint16 view byteOffset littleEndian = getViewValue view byteOffset 2 littleEndian"

definition getInt16 :: "byte list \<Rightarrow> nat \<Rightarrow> bool \<Rightarrow> int option" where
  "getInt16 view byteOffset littleEndian =
     map_option (\<lambda>u. if u \<ge> 2 ^ 15 then int u - 2 ^ 16 else int u)
       (getViewValue view byteOffset 2 littleEndian)"

section \<open>The WAV encoder\<close>

record Blob =
  data :: "byte list"
  type :: string

text \<open>
  An \<^verbatim>\<open>AudioBuffer\<close>: \<open>buffer_length\<close> is the attribute \<^verbatim>\<open>length\<close> (the frame count),
  \<open>channelData\<close> holds the array returned by \<^verbatim>\<open>getChannelData\<close> for each channel, and
  \<^verbatim>\<open>numberOfChannels\<close> is the number of these arrays.
\<close>

record AudioBuffer =
  sampleRate :: nat
  buffer_length :: nat
  channelData :: "js_number list list"

definition numberOfChannels :: "AudioBuffer \<Rightarrow> nat" where
  "numberOfChannels buffer = length (channelData buffer)"

text \<open>
  \<^verbatim>\<open>buffer.getChannelData(channel)[i]\<close>. A typed array read past its end gives
  \<^verbatim>\<open>undefined\<close>, which \<^verbatim>\<open>Math.min\<close> converts to NaN.
\<close>

definition getSample :: "AudioBuffer \<Rightarrow> nat \<Rightarrow> nat \<Rightarrow> js_number" where
  "getSample buffer channel i =
     (let samples = channelData buffer ! channel
      in if i < length samples then samples ! i else NaN)"

text \<open>The parameter \<open>rate\<close> is the source's \<^verbatim>\<open>sampleRate\<close>.\<close>

definition writeWavHeader :: "byte list \<Rightarrow> nat \<Rightarrow> nat \<Rightarrow> nat \<Rightarrow> byte list option" where
  "writeWavHeader view rate numChannels dataLength =
     (let fileLength = dataLength + 36 in do {
        view \<leftarrow> setUint32 view 0 0x52494646 False;
        view \<leftarrow> setUint32 view 4 fileLength True;
        view \<leftarrow> setUint32 view 8 0x57415645 False;
        view \<leftarrow> setUint32 view 12 0x666d7420 False;
        view \<leftarrow> setUint32 view 16 16 True;
        view \<leftarrow> setUint16 view 20 1 True;
        view \<leftarrow> setUint16 view 22 numChannels True;
        view \<leftarrow> setUint32 view 24 rate True;
        view \<leftarrow> setUint32 view 28 (rate * numChannels * 2) True;
        view \<leftarrow> setUint16 view 32 (numChannels * 2) True;
        view \<leftarrow> setUint16 view 34 16 True;
        view \<leftarrow> setUint32 view 36 0x64617461 False;
        setUint32 view 40 dataLength True
      })"

text \<open>Lines 56 to 62: the clamped and scaled value handed to \<^verbatim>\<open>setInt16\<close>.\<close>

definition int16 :: "js_number \<Rightarrow> js_number" where
  "int16 sample =
     (let clamped = Math_max (Finite (- 1)) (Math_min (Finite 1) sample)
      in if js_less clamped (Finite 0) then js_times clamped (Finite 0x8000)
         else js_times clamped (Finite 0x7FFF))"

text \<open>The inner loop over the channels of frame \<open>i\<close>; the state is the view and the offset.\<close>

function channelLoop ::
  "AudioBuffer \<Rightarrow> nat \<Rightarrow> nat \<Rightarrow> byte list \<Rightarrow> nat \<Rightarrow> (byte list \<times> nat) option" where
  "channelLoop buffer i channel view offset =
     (if channel < numberOfChannels buffer then
        (case setInt16 view offset (int16 (getSample buffer channel i)) True of
           None \<Rightarrow> None
         | Some view' \<Rightarrow> channelLoop buffer i (channel + 1) view' (offset + 2))
      else Some (view, offset))"
  by pat_completeness auto
termination
  by (relation "measure (\<lambda>(buffer, i, channel, view, offset). numberOfChannels buffer - channel)")
    auto

declare channelLoop.simps [simp del]

text \<open>The outer loop over the frames.\<close>

function frameLoop ::
  "AudioBuffer \<Rightarrow> nat \<Rightarrow> byte list \<Rightarrow> nat \<Rightarrow> (byte list \<times> nat) option" where
  "frameLoop buffer i view offset =
     (if i < buffer_length buffer then
        (case channelLoop buffer i 0 view offset of
           None \<Rightarrow> None
         | Some (view', offset') \<Rightarrow> frameLoop buffer (i + 1) view' offset')
      else Some (view, offset))"
  by pat_completeness auto
termination
  by (relation "measure (\<lambda>(buffer, i, view, offset). buffer_length buffer - i)") auto

declare frameLoop.simps [simp del]

definition audioBufferToWav :: "AudioBuffer \<Rightarrow> Blob option" where
  "audioBufferToWav buffer =
     (let numChannels = numberOfChannels buffer;
          length' = buffer_length buffer * numChannels * 2;
          arrayBuffer = replicate (44 + length') 0
      in do {
        view \<leftarrow> writeWavHeader arrayBuffer (sampleRate buffer) numChannels length';
        (view, offset) \<leftarrow> frameLoop buffer 0 view 44;
        Some \<lparr>data = view, type = ''audio/wav''\<rparr>
      })"

subsection \<open>Closed forms and the specification's sample conversion\<close>

text \<open>
  A well-formed \<^verbatim>\<open>AudioBuffer\<close>: every channel array holds \<open>buffer_length\<close> samples.
\<close>

definition valid :: "AudioBuffer \<Rightarrow> bool" where
  "valid buffer = list_all (\<lambda>samples. length samples = buffer_length buffer) (channelData buffer)"

text \<open>The two bytes \<^verbatim>\<open>setInt16\<close> stores for one sample, little-endian.\<close>

definition sampleBytes :: "js_number \<Rightarrow> byte list" where
  "sampleBytes sample = rawBytes 2 (nat (ToInt16 (int16 sample) mod 2 ^ 16)) True"

text \<open>The bytes of frame \<open>i\<close> from channel \<open>channel\<close> on, and of all frames from \<open>i\<close> on.\<close>

definition frameBytes :: "AudioBuffer \<Rightarrow> nat \<Rightarrow> nat \<Rightarrow> byte list" where
  "frameBytes buffer i channel =
     concat (map (\<lambda>c. sampleBytes (getSample buffer c i)) [channel..<numberOfChannels buffer])"

definition pcmBytes :: "AudioBuffer \<Rightarrow> nat \<Rightarrow> byte list" where
  "pcmBytes buffer i = concat (map (\<lambda>k. frameBytes buffer k 0) [i..<buffer_length buffer])"

text \<open>A view whose first bytes have been overwritten by \<open>done\<close>.\<close>

definition written :: "byte list \<Rightarrow> byte list \<Rightarrow> byte list" where
  "written done view = done @ drop (length done) view"

text \<open>The 44 bytes that the thirteen writes of \<^verbatim>\<open>writeWavHeader\<close> leave in the view.\<close>

definition headerBytes :: "nat \<Rightarrow> nat \<Rightarrow> nat \<Rightarrow> byte list" where
  "headerBytes rate numChannels dataLength =
     rawBytes 4 (0x52494646 mod 2 ^ 32) False @
     rawBytes 4 ((dataLength + 36) mod 2 ^ 32) True @
     rawBytes 4 (0x57415645 mod 2 ^ 32) False @
     rawBytes 4 (0x666d7420 mod 2 ^ 32) False @
     rawBytes 4 (16 mod 2 ^ 32) True @
     rawBytes 2 (1 mod 2 ^ 16) True @
     rawBytes 2 (numChannels mod 2 ^ 16) True @
     rawBytes 4 (rate mod 2 ^ 32) True @
     rawBytes 4 (rate * numChannels * 2 mod 2 ^ 32) True @
     rawBytes 2 (numChannels * 2 mod 2 ^ 16) True @
     rawBytes 2 (16 mod 2 ^ 16) True @
     rawBytes 4 (0x64617461 mod 2 ^ 32) False @
     rawBytes 4 (dataLength mod 2 ^ 32) True"

text \<open>
  The sample conversion as the specification words it: clamp to \<open>[-1, 1]\<close>, scale negative
  values by 32768 and the others by 32767, truncate towards zero. No reduction modulo
  \<open>2^16\<close> takes part.
\<close>

definition spec_pcm16 :: "real \<Rightarrow> int" where
  "spec_pcm16 x =
     (let clamped = max (- 1) (min 1 x);
          scaled = (if clamped < 0 then clamped * 32768 else clamped * 32767)
      in if 0 \<le> scaled then \<lfloor>scaled\<rfloor> else \<lceil>scaled\<rceil>)"

text \<open>Buffers on which the encoder is evaluated below.\<close>

definition stereoBuffer :: AudioBuffer where
  "stereoBuffer =
     \<lparr>sampleRate = 16000, buffer_length = 2,
      channelData = [[Finite 1, Finite (- 1)], [Finite (1 / 2), Finite (- 2)]]\<rparr>"

text \<open>
  A mono recording of \<open>2^31\<close> frames at 16 kHz (about 37 hours), within the ranges of the
  attributes of an \<^verbatim>\<open>AudioBuffer\<close>.
\<close>

definition longBuffer :: AudioBuffer where
  "longBuffer =
     \<lparr>sampleRate = 16000, buffer_length = 2147483648,
      channelData = [replicate 2147483648 (Finite 0)]\<rparr>"

section \<open>Strings and the response parser\<close>

text \<open>\<^verbatim>\<open>String.prototype.includes\<close> and \<^verbatim>\<open>endsWith\<close>.\<close>

definition stringIncludes :: "string \<Rightarrow> string \<Rightarrow> bool" where
  "stringIncludes s searchString = sublist searchString s"

definition endsWith :: "string \<Rightarrow> string \<Rightarrow> bool" where
  "endsWith s searchString = suffix searchString s"

text \<open>
  \<^verbatim>\<open>toLowerCase\<close> on code units below 256: the letters A to Z and the Latin-1 capitals
  (192 to 222 without the multiplication sign 215) move up by 32.
\<close>

definition lowerUnit :: "char \<Rightarrow> char" where
  "lowerUnit c =
     (let n = (of_char c :: nat)
      in if (65 \<le> n \<and> n \<le> 90) \<or> (192 \<le> n \<and> n \<le> 222 \<and> n \<noteq> 215)
         then char_of (n + 32) else c)"

definition toLowerCase :: "string \<Rightarrow> string" where
  "toLowerCase s = map lowerUnit s"

text \<open>\<^verbatim>\<open>s.split('.').pop()\<close>: what follows the last dot, or all of \<open>s\<close> without a dot.\<close>

definition lastSegment :: "string \<Rightarrow> string" where
  "lastSegment s = rev (takeWhile (\<lambda>c. c \<noteq> CHR ''.'') (rev s))"

text \<open>The white space class \<^verbatim>\<open>\s\<close> of regular expressions, on code units below 256.\<close>

definition isSpace :: "char \<Rightarrow> bool" where
  "isSpace c = ((of_char c :: nat) \<in> {9, 10, 11, 12, 13, 32, 160})"

subsection \<open>The pattern of \<^verbatim>\<open>cleanAndParseJSON\<close>\<close>

text \<open>
  \<^verbatim>\<open>/```(?:json)?\s*([\s\S]*?)\s*```/\<close>, matched the way a backtracking engine does:
  each function is one piece of the pattern followed by the rest of it, alternatives are
  tried in the engine's order and the first success wins. The result is capture group 1.
\<close>

definition fence :: string where
  "fence = [CHR 0x60, CHR 0x60, CHR 0x60]"

fun orElse :: "'a option \<Rightarrow> 'a option \<Rightarrow> 'a option" where
  "orElse (Some x) y = Some x"
| "orElse None y = y"

text \<open>Greedy \<^verbatim>\<open>\s*\<close> before the continuation \<open>k\<close>: the longest run first, then shorter ones.\<close>

fun greedySpaces :: "(string \<Rightarrow> 'a option) \<Rightarrow> string \<Rightarrow> 'a option" where
  "greedySpaces k [] = k []"
| "greedySpaces k (c # cs) =
     (if isSpace c then orElse (greedySpaces k cs) (k (c # cs)) else k (c # cs))"

text \<open>The tail \<^verbatim>\<open>\s*```\<close> of the pattern.\<close>

definition closing :: "string \<Rightarrow> unit option" where
  "closing s = greedySpaces (\<lambda>r. if prefix fence r then Some () else None) s"

text \<open>
  The lazy group \<^verbatim>\<open>([\s\S]*?)\<close> before the tail: the empty capture first, then one
  more code unit at a time.
\<close>

fun lazyGroup :: "string \<Rightarrow> string option" where
  "lazyGroup [] = (case closing [] of Some u \<Rightarrow> Some [] | None \<Rightarrow> None)"
| "lazyGroup (c # cs) =
     (case closing (c # cs) of
        Some u \<Rightarrow> Some []
      | None \<Rightarrow> map_option ((#) c) (lazyGroup cs))"

text \<open>What follows the opening fence: the optional tag (taken first, skipped on failure).\<close>

definition afterOpen :: "string \<Rightarrow> string option" where
  "afterOpen s =
     orElse (if prefix ''json'' s then greedySpaces lazyGroup (drop 4 s) else None)
            (greedySpaces lazyGroup s)"

text \<open>\<^verbatim>\<open>text.match(codeBlockRegex)\<close>: the leftmost start position that matches.\<close>

fun regexMatch :: "string \<Rightarrow> string option" where
  "regexMatch [] = None"
| "regexMatch (c # cs) =
     orElse (if prefix fence (c # cs) then afterOpen (drop 3 (c # cs)) else None)
            (regexMatch cs)"

text \<open>
  \<^verbatim>\<open>JSON.parse\<close> is the parameter \<open>parse\<close>; \<open>None\<close> stands for its
  \<^verbatim>\<open>SyntaxError\<close>.
\<close>

definition cleanAndParseJSON :: "(string \<Rightarrow> 'j option) \<Rightarrow> string \<Rightarrow> 'j option" where
  "cleanAndParseJSON parse text =
     (let match = regexMatch text;
          cleanText = (case match of Some group1 \<Rightarrow> group1 | None \<Rightarrow> text)
      in parse cleanText)"

section \<open>The orchestrator\<close>

record File = Blob +
  name :: string

text \<open>A \<^verbatim>\<open>File\<close> used where a \<^verbatim>\<open>Blob\<close> is expected, and \<^verbatim>\<open>blob.size\<close>.\<close>

definition asBlob :: "File \<Rightarrow> Blob" where
  "asBlob file = \<lparr>data = data file, type = type file\<rparr>"

definition blobSize :: "Blob \<Rightarrow> nat" where
  "blobSize blob = length (data blob)"

text \<open>
  A thrown value: its \<^verbatim>\<open>message\<close> and \<^verbatim>\<open>status\<close> properties, each possibly
  absent. \<open>Error msg\<close> is \<^verbatim>\<open>new Error(msg)\<close>.
\<close>

record js_error =
  message :: "string option"
  status :: "int option"

definition Error :: "string \<Rightarrow> js_error" where
  "Error msg = \<lparr>message = Some msg, status = None\<rparr>"

text \<open>\<^verbatim>\<open>error.message?.includes(s)\<close>, false when there is no message.\<close>

definition messageIncludes :: "js_error \<Rightarrow> string \<Rightarrow> bool" where
  "messageIncludes error s = (case message error of None \<Rightarrow> False | Some m \<Rightarrow> stringIncludes m s)"

text \<open>The outcome of one \<^verbatim>\<open>generateContent\<close> call: a rejection, or \<^verbatim>\<open>response.text\<close>.\<close>

datatype remote_result = Throws js_error | Returns "string option"

text \<open>
  The platform and the remote service. \<open>render\<close> is the decoding and offline resampling of
  \<^verbatim>\<open>convertMp4ToWav\<close> (\<open>None\<close> when either rejects); \<open>readAsDataURL\<close> is the outcome
  of the file reader: the error event, or \<^verbatim>\<open>reader.result\<close>; \<open>generateContent\<close> answers
  the call with the given index (the number of earlier calls), MIME type and payload.
\<close>

record 'j env =
  API_KEY :: "string option"
  render :: "File \<Rightarrow> AudioBuffer option"
  readAsDataURL :: "Blob \<Rightarrow> js_error + string"
  generateContent :: "nat \<Rightarrow> string \<Rightarrow> string \<Rightarrow> remote_result"
  JSON_parse :: "string \<Rightarrow> 'j option"

text \<open>What the call does to the outside, in order.\<close>

datatype event =
    Converted File
  | Encoded Blob
  | Requested string string
  | Waited nat

fun isRequested :: "event \<Rightarrow> bool" where
  "isRequested (Requested mimeType base64Data) = True"
| "isRequested e = False"

definition requests :: "event list \<Rightarrow> nat" where
  "requests trace = length (filter isRequested trace)"

definition convertMp4ToWav :: "'j env \<Rightarrow> File \<Rightarrow> Blob option" where
  "convertMp4ToWav env file =
     (case render env file of
        None \<Rightarrow> None
      | Some resampledBuffer \<Rightarrow> audioBufferToWav resampledBuffer)"

text \<open>
  \<^verbatim>\<open>base64String.split(',')[1]\<close>: what lies between the first comma and the next one.
  A data URL always contains a comma, so the element exists.
\<close>

definition secondPart :: "string \<Rightarrow> string" where
  "secondPart s =
     takeWhile (\<lambda>c. c \<noteq> CHR '','') (drop 1 (dropWhile (\<lambda>c. c \<noteq> CHR '','') s))"

text \<open>The promise of \<^verbatim>\<open>fileToGenerativePart\<close>: rejected with the reader's error, or resolved.\<close>

definition fileToGenerativePart :: "'j env \<Rightarrow> Blob \<Rightarrow> js_error + string" where
  "fileToGenerativePart env file =
     (case readAsDataURL env file of
        Inl event \<Rightarrow> Inl event
      | Inr base64String \<Rightarrow> Inr (secondPart base64String))"

definition getMimeType :: "Blob \<Rightarrow> string option \<Rightarrow> string" where
  "getMimeType file originalName =
     (if type file = ''audio/wav'' then ''audio/wav''
      else
        (let ext = (case originalName of
                      None \<Rightarrow> None
                    | Some n \<Rightarrow> if n = [] then None else Some (toLowerCase (lastSegment n)))
         in if ext = Some ''mp3'' then ''audio/mpeg''
            else if ext = Some ''wav'' then ''audio/wav''
            else if ext = Some ''m4a'' then ''audio/mp4''
            else if type file \<noteq> [] then type file else ''audio/mp3''))"

subsection \<open>Number formatting in the size message\<close>

definition digitChar :: "nat \<Rightarrow> char" where
  "digitChar d = ''0123456789'' ! d"

function decimal :: "nat \<Rightarrow> string" where
  "decimal n = (if n < 10 then [digitChar n] else decimal (n div 10) @ [digitChar (n mod 10)])"
  by pat_completeness auto
termination
  by (relation "measure (\<lambda>n. n)") auto

declare decimal.simps [simp del]

text \<open>
  \<^verbatim>\<open>(size / (1024 * 1024)).toFixed(1)\<close>. The division by \<open>2^20\<close> is exact, and
  \<^verbatim>\<open>toFixed(1)\<close> takes the integer \<open>n\<close> with \<open>n / 10\<close> nearest to that quotient, the larger
  one on a tie.
\<close>

definition toFixed1MB :: "nat \<Rightarrow> string" where
  "toFixed1MB size' =
     (let n = (20 * size' + 1024 * 1024) div (2 * 1024 * 1024)
      in decimal (n div 10) @ ''.'' @ decimal (n mod 10))"

definition sizeLimitMessage :: "nat \<Rightarrow> string" where
  "sizeLimitMessage size' =
     ''Processed file size ('' @ toFixed1MB size' @
     ''MB) exceeds the 10MB limit. Please upload a shorter recording.''"

text \<open>
  Reading a decimal numeral back, to state which number a printed size denotes: the
  decimal digits, the value of a digit, and the value of a digit string.
\<close>

definition decimalDigit :: "char \<Rightarrow> bool" where
  "decimalDigit c = (c \<in> set ''0123456789'')"

definition digitValue :: "char \<Rightarrow> nat" where
  "digitValue c = of_char c - 48"

definition readDecimal :: "string \<Rightarrow> nat" where
  "readDecimal s = foldl (\<lambda>acc c. 10 * acc + digitValue c) 0 s"

subsection \<open>\<^verbatim>\<open>analyzeAudio\<close>\<close>

definition needsConversion :: "File \<Rightarrow> bool" where
  "needsConversion input =
     (stringIncludes (type input) ''mp4''
      \<or> endsWith (toLowerCase (name input)) ''.mp4''
      \<or> endsWith (toLowerCase (name input)) ''.m4a'')"

text \<open>
  Lines 140 to 159: \<^verbatim>\<open>finalBlob\<close> and \<^verbatim>\<open>finalMimeType\<close>, or the conversion error, with
  the events so far.
\<close>

definition conversion :: "'j env \<Rightarrow> File \<Rightarrow> (js_error + Blob \<times> string) \<times> event list" where
  "conversion env input =
     (if needsConversion input then
        (case convertMp4ToWav env input of
           Some wav \<Rightarrow> (Inr (wav, ''audio/wav''), [Converted input])
         | None \<Rightarrow>
             (Inl (Error ''Failed to convert audio file. The file might be corrupted or incompatible.''),
              [Converted input]))
      else (Inr (asBlob input, type input), []))"

definition maxRetries :: nat where
  "maxRetries = 3"

definition isRetryable :: "js_error \<Rightarrow> bool" where
  "isRetryable error =
     (messageIncludes error ''500'' \<or> messageIncludes error ''503''
      \<or> status error = Some 500 \<or> status error = Some 503)"

text \<open>
  Lines 192 to 217, the body of the \<^verbatim>\<open>try\<close>: the parsed result, or whatever is thrown
  inside it. \<open>n\<close> is the index of the remote call.
\<close>

definition tryRequest :: "'j env \<Rightarrow> nat \<Rightarrow> string \<Rightarrow> string \<Rightarrow> js_error + 'j" where
  "tryRequest env n mimeType base64Data =
     (case generateContent env n mimeType base64Data of
        Throws error \<Rightarrow> Inl error
      | Returns text \<Rightarrow>
          (if text \<noteq> None \<and> text \<noteq> Some [] then
             (case cleanAndParseJSON (JSON_parse env) (the text) of
                Some result \<Rightarrow> Inr result
              | None \<Rightarrow> Inl (Error ''Failed to parse AI response.''))
           else Inl (Error ''Empty response from Gemini'')))"

text \<open>Lines 191 to 236: the retry loop with its \<^verbatim>\<open>catch\<close> block, and the final throw.\<close>

function requestLoop ::
  "'j env \<Rightarrow> string \<Rightarrow> string \<Rightarrow> nat \<Rightarrow> event list \<Rightarrow> (js_error + 'j) \<times> event list" where
  "requestLoop env mimeType base64Data attempt trace =
     (if attempt < maxRetries then
        (case tryRequest env (requests trace) mimeType base64Data of
           Inr result \<Rightarrow> (Inr result, trace @ [Requested mimeType base64Data])
         | Inl error \<Rightarrow>
             (if isRetryable error \<and> attempt < maxRetries - 1 then
                requestLoop env mimeType base64Data (attempt + 1)
                  (trace @ [Requested mimeType base64Data, Waited (2000 * 2 ^ (attempt + 1))])
              else if messageIncludes error ''400'' then
                (Inl (Error ''Invalid request. The file format might not be supported.''),
                 trace @ [Requested mimeType base64Data])
              else (Inl error, trace @ [Requested mimeType base64Data])))
      else (Inl (Error ''Analysis failed after multiple attempts.''), trace))"
  by pat_completeness auto
termination
  by (relation "measure (\<lambda>(env, mimeType, base64Data, attempt, trace). maxRetries - attempt)")
    auto

declare requestLoop.simps [simp del]

text \<open>
  Lines 136 to 170, everything before the retry loop: the MIME type and the payload of the
  request, or the error that ends the call, with the events so far.
\<close>

definition prepare :: "'j env \<Rightarrow> File \<Rightarrow> (js_error + string \<times> string) \<times> event list" where
  "prepare env input =
     (if API_KEY env = None \<or> API_KEY env = Some [] then
        (Inl (Error ''API Key is missing. Please check your environment configuration.''), [])
      else
        (case conversion env input of
           (Inl error, trace) \<Rightarrow> (Inl error, trace)
         | (Inr (finalBlob, finalMimeType), trace) \<Rightarrow>
             (if blobSize finalBlob > 10 * 1024 * 1024 then
                (Inl (Error (sizeLimitMessage (blobSize finalBlob))), trace)
              else
                (case fileToGenerativePart env finalBlob of
                   Inl error \<Rightarrow> (Inl error, trace @ [Encoded finalBlob])
                 | Inr base64Data \<Rightarrow>
                     (let mimeType = (if finalMimeType = ''audio/wav'' then ''audio/wav''
                                      else getMimeType finalBlob (Some (name input)))
                      in (Inr (mimeType, base64Data), trace @ [Encoded finalBlob]))))))"

definition analyzeAudio :: "'j env \<Rightarrow> File \<Rightarrow> (js_error + 'j) \<times> event list" where
  "analyzeAudio env input =
     (case prepare env input of
        (Inl error, trace) \<Rightarrow> (Inl error, trace)
      | (Inr (mimeType, base64Data), trace) \<Rightarrow> requestLoop env mimeType base64Data 0 trace)"

subsection \<open>Event vocabulary of the statements\<close>

text \<open>The events of \<open>k\<close> failed attempts that were retried: each request and its backoff.\<close>

definition retries :: "string \<Rightarrow> string \<Rightarrow> nat \<Rightarrow> event list" where
  "retries mimeType base64Data k =
     concat (map (\<lambda>j. [Requested mimeType base64Data, Waited (2000 * 2 ^ (j + 1))]) [0..<k])"

fun isConverted :: "event \<Rightarrow> bool" where
  "isConverted (Converted file) = True"
| "isConverted e = False"

fun isLoopEvent :: "event \<Rightarrow> bool" where
  "isLoopEvent (Requested mimeType base64Data) = True"
| "isLoopEvent (Waited ms) = True"
| "isLoopEvent e = False"

section \<open>A model of \<^verbatim>\<open>JSON.parse\<close>\<close>

text \<open>
  \<^verbatim>\<open>JSON.parse\<close> belongs to the platform, and the theorems below hold for any function
  in its place. To evaluate the parser on concrete responses, this section gives one:
  a recogniser of the JSON grammar (ECMA-404) that returns the syntax tree of the text,
  with numbers and string contents kept as written. Texts with equal trees denote equal
  JavaScript values, and a text without a tree is a \<^verbatim>\<open>SyntaxError\<close>.
\<close>

datatype json =
    JNull
  | JBool bool
  | JNumber string
  | JString string
  | JArray "json list"
  | JObject "(string \<times> json) list"

definition isJsonSpace :: "char \<Rightarrow> bool" where
  "isJsonSpace c = ((of_char c :: nat) \<in> {9, 10, 13, 32})"

definition skipWs :: "string \<Rightarrow> string" where
  "skipWs s = dropWhile isJsonSpace s"

definition isDigit :: "char \<Rightarrow> bool" where
  "isDigit c = (48 \<le> (of_char c :: nat) \<and> (of_char c :: nat) \<le> 57)"

definition isHex :: "char \<Rightarrow> bool" where
  "isHex c = (isDigit c \<or> c \<in> set ''abcdefABCDEF'')"

text \<open>The contents of a string up to its closing quote, and what follows the quote.\<close>

fun stringBody :: "string \<Rightarrow> (string \<times> string) option" where
  "stringBody [] = None"
| "stringBody (c # cs) =
     (if c = CHR 0x22 then Some ([], cs)
      else if c = CHR 0x5C then
        (case cs of
           [] \<Rightarrow> None
         | e # es \<Rightarrow>
             if e \<in> set [CHR 0x22, CHR 0x5C, CHR ''/'', CHR ''b'', CHR ''f'', CHR ''n'', CHR ''r'', CHR ''t'']
             then map_option (\<lambda>(raw, rest). (c # e # raw, rest)) (stringBody es)
             else if e = CHR ''u'' \<and> 4 \<le> length es \<and> list_all isHex (take 4 es)
             then map_option (\<lambda>(raw, rest). (c # e # take 4 es @ raw, rest)) (stringBody (drop 4 es))
             else None)
      else if (of_char c :: nat) < 32 then None
      else map_option (\<lambda>(raw, rest). (c # raw, rest)) (stringBody cs))"

text \<open>A number: optional minus, integer part without leading zero, fraction, exponent.\<close>

definition digitsThen :: "string \<Rightarrow> (string \<times> string) option" where
  "digitsThen s =
     (let ds = takeWhile isDigit s in if ds = [] then None else Some (ds, dropWhile isDigit s))"

definition numberLexeme :: "string \<Rightarrow> (string \<times> string) option" where
  "numberLexeme s =
     (let (sign, s1) = (if prefix ''-'' s then (''-'', drop 1 s) else ([], s)) in
      case (if prefix ''0'' s1 then Some (''0'', drop 1 s1) else digitsThen s1) of
        None \<Rightarrow> None
      | Some (ip, s2) \<Rightarrow>
          (case (if prefix ''.'' s2
                 then map_option (\<lambda>(ds, r). (CHR ''.'' # ds, r)) (digitsThen (drop 1 s2))
                 else Some ([], s2)) of
             None \<Rightarrow> None
           | Some (fp, s3) \<Rightarrow>
               (if prefix ''e'' s3 \<or> prefix ''E'' s3 then
                  (let s4 = drop 1 s3;
                       (es, s5) = (if prefix ''+'' s4 \<or> prefix ''-'' s4
                                   then (take 1 s4, drop 1 s4) else ([], s4))
                   in map_option (\<lambda>(ds, r). (sign @ ip @ fp @ take 1 s3 @ es @ ds, r))
                        (digitsThen s5))
                else Some (sign @ ip @ fp, s3))))"

text \<open>
  Values, array elements and object members. The first argument bounds the number of
  nested calls; \<open>JSON_text\<close> passes a bound that no text reaches.
\<close>

fun parseValue :: "nat \<Rightarrow> string \<Rightarrow> (json \<times> string) option"
  and parseElements :: "nat \<Rightarrow> string \<Rightarrow> (json list \<times> string) option"
  and parseMembers :: "nat \<Rightarrow> string \<Rightarrow> ((string \<times> json) list \<times> string) option" where
  "parseValue 0 s = None"
| "parseValue (Suc n) s =
     (case s of
        [] \<Rightarrow> None
      | c # cs \<Rightarrow>
          if c = CHR ''{'' then
            (case skipWs cs of
               [] \<Rightarrow> None
             | d # r \<Rightarrow>
                 if d = CHR ''}'' then Some (JObject [], r)
                 else map_option (\<lambda>(ms, r'). (JObject ms, r')) (parseMembers n (d # r)))
          else if c = CHR ''['' then
            (case skipWs cs of
               [] \<Rightarrow> None
             | d # r \<Rightarrow>
                 if d = CHR '']'' then Some (JArray [], r)
                 else map_option (\<lambda>(vs, r'). (JArray vs, r')) (parseElements n (d # r)))
          else if c = CHR 0x22 then map_option (\<lambda>(raw, r). (JString raw, r)) (stringBody cs)
          else if prefix ''true'' s then Some (JBool True, drop 4 s)
          else if prefix ''false'' s then Some (JBool False, drop 5 s)
          else if prefix ''null'' s then Some (JNull, drop 4 s)
          else map_option (\<lambda>(l, r). (JNumber l, r)) (numberLexeme s))"
| "parseElements 0 s = None"
| "parseElements (Suc n) s =
     (case parseValue n s of
        None \<Rightarrow> None
      | Some (v, r) \<Rightarrow>
          (case skipWs r of
             [] \<Rightarrow> None
           | d # r' \<Rightarrow>
               if d = CHR '','' then
                 map_option (\<lambda>(vs, r''). (v # vs, r'')) (parseElements n (skipWs r'))
               else if d = CHR '']'' then Some ([v], r')
               else None))"
| "parseMembers 0 s = None"
| "parseMembers (Suc n) s =
     (case s of
        [] \<Rightarrow> None
      | q # cs \<Rightarrow>
          if q \<noteq> CHR 0x22 then None
          else
            (case stringBody cs of
               None \<Rightarrow> None
             | Some (key, r) \<Rightarrow>
                 (case skipWs r of
                    [] \<Rightarrow> None
                  | d # r1 \<Rightarrow>
                      if d \<noteq> CHR '':'' then None
                      else
                        (case parseValue n (skipWs r1) of
                           None \<Rightarrow> None
                         | Some (v, r2) \<Rightarrow>
                             (case skipWs r2 of
                                [] \<Rightarrow> None
                              | d' # r3 \<Rightarrow>
                                  if d' = CHR '','' then
                                    map_option (\<lambda>(ms, r4). ((key, v) # ms, r4))
                                      (parseMembers n (skipWs r3))
                                  else if d' = CHR ''}'' then Some ([(key, v)], r3)
                                  else None)))))"

definition JSON_text :: "string \<Rightarrow> json option" where
  "JSON_text s =
     (case parseValue (2 * length s + 2) (skipWs s) of
        None \<Rightarrow> None
      | Some (v, rest) \<Rightarrow> if skipWs rest = [] then Some v else None)"

section \<open>Concrete calls\<close>

text \<open>Inputs and environments on which the orchestrator and the parser are evaluated below.\<close>

definition mp3File :: File where
  "mp3File = \<lparr>data = [1, 2, 3], type = ''audio/mpeg'', name = ''call.mp3''\<rparr>"

definition bigFile :: File where
  "bigFile = \<lparr>data = replicate 10485761 0, type = ''audio/mpeg'', name = ''big.mp3''\<rparr>"

definition hugeFile :: File where
  "hugeFile = \<lparr>data = replicate 123456789 0, type = ''audio/mpeg'', name = ''huge.mp3''\<rparr>"

definition limitFile :: File where
  "limitFile = \<lparr>data = replicate 10485760 0, type = ''audio/mpeg'', name = ''limit.mp3''\<rparr>"

definition unavailable :: js_error where
  "unavailable = \<lparr>message = Some ''Service Unavailable'', status = Some 503\<rparr>"

definition badRequest :: js_error where
  "badRequest = \<lparr>message = Some ''400 Bad Request'', status = Some 400\<rparr>"

definition plainBadRequest :: js_error where
  "plainBadRequest = \<lparr>message = Some ''Bad Request'', status = Some 400\<rparr>"

definition badSampleRate :: js_error where
  "badSampleRate =
     \<lparr>message = Some ''400 Bad Request: unsupported sample rate 22500'', status = Some 400\<rparr>"

text \<open>An environment whose remote service answers call \<open>n\<close> with \<open>answer n\<close>.\<close>

definition remote :: "(nat \<Rightarrow> remote_result) \<Rightarrow> json env" where
  "remote answer =
     \<lparr>API_KEY = Some ''key'',
      render = (\<lambda>file. None),
      readAsDataURL = (\<lambda>blob. Inr ''data:audio/mpeg;base64,AQID''),
      generateContent = (\<lambda>n mimeType base64Data. answer n),
      JSON_parse = JSON_text\<rparr>"

text \<open>The request of \<open>mp3File\<close> and the events of an orchestration that retries twice.\<close>

definition mp3Request :: event where
  "mp3Request = Requested ''audio/mpeg'' ''AQID''"

definition threeRequests :: "event list" where
  "threeRequests =
     [Encoded (asBlob mp3File), mp3Request, Waited 4000, mp3Request, Waited 8000, mp3Request]"

text \<open>The response of the specification's example, and an object holding three backticks.\<close>

definition exampleObject :: string where
  \<open>exampleObject =
     ''{"transcript":"hi","summary":"s","sentiment":"Neutral","actionItems":[],"keyInsights":[]}''\<close>

definition backtickObject :: string where
  \<open>backtickObject = ''{"a":"```"}''\<close>

text \<open>A response with two fenced blocks, the second one holding an object.\<close>

definition twoBlocks :: string where
  \<open>twoBlocks = fence @ ''x'' @ fence @ '' '' @ fence @ ''json'' @ [CHR 0x0A] @ ''{}'' @ [CHR 0x0A] @ fence\<close>

definition m4aFile :: File where
  "m4aFile = \<lparr>data = [1, 2, 3], type = [], name = ''Voice.M4A''\<rparr>"

text \<open>Remote services: one that always rejects, and two that answer after failures.\<close>

definition alwaysThrows :: "js_error \<Rightarrow> nat \<Rightarrow> remote_result" where
  "alwaysThrows error n = Throws error"

definition twiceUnavailable :: "nat \<Rightarrow> remote_result" where
  \<open>twiceUnavailable n = (if n < 2 then Throws unavailable else Returns (Some ''{}''))\<close>

definition unavailableThenEmpty :: "nat \<Rightarrow> remote_result" where
  "unavailableThenEmpty n = (if n < 1 then Throws unavailable else Returns (Some []))"

text \<open>
  An environment whose decoder renders every file to \<open>stereoBuffer\<close>, and the container
  the encoder makes of that buffer.
\<close>

definition studio :: "json env" where
  "studio = (remote twiceUnavailable)\<lparr>render := (\<lambda>file. Some stereoBuffer)\<rparr>"

definition stereoWav :: Blob where
  "stereoWav = \<lparr>data = headerBytes 16000 2 8 @ pcmBytes stereoBuffer 0, type = ''audio/wav''\<rparr>"

section \<open>Properties of the WAV encoder\<close>


lemma length_rawBytes: "length (rawBytes n v le) = n"
  by (simp add: rawBytes_def Let_def)

lemma length_splice:
  "byteOffset + length bs \<le> length view \<Longrightarrow> length (splice view byteOffset bs) = length view"
  by (simp add: splice_def)

lemma splice_splice:
  "byteOffset + length as + length bs \<le> length view \<Longrightarrow>
   splice (splice view byteOffset as) (byteOffset + length as) bs = splice view byteOffset (as @ bs)"
proof -
  assume fit: "byteOffset + length as + length bs \<le> length view"
  then have m: "min (length view) byteOffset = byteOffset" by simp
  have "take (byteOffset + length as) (take byteOffset view @ as @ drop (byteOffset + length as) view)
          = take byteOffset view @ as"
    using m by simp
  moreover have "drop (byteOffset + length as + length bs)
                   (take byteOffset view @ as @ drop (byteOffset + length as) view)
          = drop (byteOffset + length as + length bs) view"
    using m by (simp add: add.commute add.left_commute)
  ultimately show ?thesis
    by (simp add: splice_def add.assoc)
qed

lemma splice_Nil: "splice view byteOffset [] = view"
  by (simp add: splice_def)

lemma setUint32_Some:
  "byteOffset + 4 \<le> length view \<Longrightarrow>
   setUint32 view byteOffset v le = Some (splice view byteOffset (rawBytes 4 (v mod 2 ^ 32) le))"
  by (simp add: setUint32_def setViewValue_def length_rawBytes)

lemma setUint16_Some:
  "byteOffset + 2 \<le> length view \<Longrightarrow>
   setUint16 view byteOffset v le = Some (splice view byteOffset (rawBytes 2 (v mod 2 ^ 16) le))"
  by (simp add: setUint16_def setViewValue_def length_rawBytes)


lemma length_sampleBytes: "length (sampleBytes x) = 2"
  by (simp add: sampleBytes_def length_rawBytes)

lemma setInt16_Some:
  "byteOffset + 2 \<le> length view \<Longrightarrow>
   setInt16 view byteOffset (int16 x) True = Some (splice view byteOffset (sampleBytes x))"
  by (simp add: setInt16_def setViewValue_def length_rawBytes sampleBytes_def)

lemma length_frameBytes:
  "length (frameBytes buffer i channel) = 2 * (numberOfChannels buffer - channel)"
  by (simp add: frameBytes_def length_concat comp_def length_sampleBytes sum_list_triv)

lemma frameBytes_step:
  "channel < numberOfChannels buffer \<Longrightarrow>
   frameBytes buffer i channel = sampleBytes (getSample buffer channel i) @ frameBytes buffer i (Suc channel)"
  by (simp add: frameBytes_def upt_conv_Cons)

lemma frameBytes_done:
  "\<not> channel < numberOfChannels buffer \<Longrightarrow> frameBytes buffer i channel = []"
  by (simp add: frameBytes_def)

lemma channelLoop_closed:
  "offset + 2 * (numberOfChannels buffer - channel) \<le> length view \<Longrightarrow>
   channelLoop buffer i channel view offset =
     Some (splice view offset (frameBytes buffer i channel),
           offset + 2 * (numberOfChannels buffer - channel))"
proof (induction buffer i channel view offset rule: channelLoop.induct)
  case (1 buffer i channel view offset)
  show ?case
  proof (cases "channel < numberOfChannels buffer")
    case True
    let ?sb = "sampleBytes (getSample buffer channel i)"
    let ?view' = "splice view offset ?sb"
    from True "1.prems" have fit: "offset + 2 \<le> length view" by simp
    have set: "setInt16 view offset (int16 (getSample buffer channel i)) True = Some ?view'"
      using fit by (rule setInt16_Some)
    have len: "length ?view' = length view"
      using fit by (simp add: length_splice length_sampleBytes)
    have "offset + 2 + 2 * (numberOfChannels buffer - (channel + 1)) \<le> length ?view'"
      using True "1.prems" len by simp
    from "1.IH" [OF True set this]
    have "channelLoop buffer i (channel + 1) ?view' (offset + 2) =
            Some (splice ?view' (offset + 2) (frameBytes buffer i (channel + 1)),
                  offset + 2 + 2 * (numberOfChannels buffer - (channel + 1)))" .
    moreover have "splice ?view' (offset + 2) (frameBytes buffer i (channel + 1)) =
                   splice view offset (frameBytes buffer i channel)"
      using splice_splice [of offset ?sb "frameBytes buffer i (Suc channel)" view] True "1.prems"
      by (simp add: length_sampleBytes length_frameBytes frameBytes_step)
    moreover have "offset + 2 + 2 * (numberOfChannels buffer - (channel + 1)) =
                   offset + 2 * (numberOfChannels buffer - channel)"
      using True by simp
    ultimately show ?thesis
      using True set by (subst channelLoop.simps) simp
  next
    case False
    then show ?thesis
      by (subst channelLoop.simps) (simp add: frameBytes_done splice_Nil)
  qed
qed

lemma length_pcmBytes:
  "length (pcmBytes buffer i) = 2 * numberOfChannels buffer * (buffer_length buffer - i)"
  by (simp add: pcmBytes_def length_concat comp_def length_frameBytes sum_list_triv)

lemma pcmBytes_step:
  "i < buffer_length buffer \<Longrightarrow>
   pcmBytes buffer i = frameBytes buffer i 0 @ pcmBytes buffer (Suc i)"
  by (simp add: pcmBytes_def upt_conv_Cons)

lemma pcmBytes_done: "\<not> i < buffer_length buffer \<Longrightarrow> pcmBytes buffer i = []"
  by (simp add: pcmBytes_def)

lemma frameLoop_closed:
  "offset + 2 * numberOfChannels buffer * (buffer_length buffer - i) \<le> length view \<Longrightarrow>
   frameLoop buffer i view offset =
     Some (splice view offset (pcmBytes buffer i),
           offset + 2 * numberOfChannels buffer * (buffer_length buffer - i))"
proof (induction buffer i view offset rule: frameLoop.induct)
  case (1 buffer i view offset)
  let ?n = "numberOfChannels buffer"
  show ?case
  proof (cases "i < buffer_length buffer")
    case True
    let ?fb = "frameBytes buffer i 0"
    let ?view' = "splice view offset ?fb"
    have "buffer_length buffer - i = Suc (buffer_length buffer - (i + 1))"
      using True by simp
    then have "2 * ?n * (buffer_length buffer - i) = 2 * ?n * Suc (buffer_length buffer - (i + 1))"
      by (rule arg_cong)
    then have more: "2 * ?n * (buffer_length buffer - i) = 2 * ?n + 2 * ?n * (buffer_length buffer - (i + 1))"
      by (simp only: mult_Suc_right)
    with "1.prems" have fit: "offset + 2 * ?n \<le> length view" by simp
    have inner: "channelLoop buffer i 0 view offset = Some (?view', offset + 2 * ?n)"
      using channelLoop_closed [of offset buffer 0 view i] fit by simp
    have len: "length ?view' = length view"
      using fit by (simp add: length_splice length_frameBytes)
    have "offset + 2 * ?n + 2 * ?n * (buffer_length buffer - (i + 1)) \<le> length ?view'"
      using "1.prems" more len by simp
    from "1.IH" [OF True inner refl this]
    have "frameLoop buffer (i + 1) ?view' (offset + 2 * ?n) =
            Some (splice ?view' (offset + 2 * ?n) (pcmBytes buffer (i + 1)),
                  offset + 2 * ?n + 2 * ?n * (buffer_length buffer - (i + 1)))" .
    moreover have "splice ?view' (offset + 2 * ?n) (pcmBytes buffer (i + 1)) =
                   splice view offset (pcmBytes buffer i)"
      using splice_splice [of offset ?fb "pcmBytes buffer (Suc i)" view] True "1.prems" more
      by (simp add: length_frameBytes length_pcmBytes pcmBytes_step)
    ultimately show ?thesis
      using True inner more by (subst frameLoop.simps) simp
  next
    case False
    then show ?thesis
      by (subst frameLoop.simps) (simp add: pcmBytes_done splice_Nil)
  qed
qed



lemma bytesToNat_Cons: "bytesToNat (b # bs) = unat b + 256 * bytesToNat bs"
  by (simp add: bytesToNat_def)

lemma bytesToNat_Nil: "bytesToNat [] = 0"
  by (simp add: bytesToNat_def)

lemma rawBytes_Suc:
  "rawBytes (Suc n) v True = of_nat (v mod 256) # rawBytes n (v div 256) True"
proof -
  have "[0..<Suc n] = 0 # map Suc [0..<n]"
    by (simp add: upt_conv_Cons map_Suc_upt del: upt_Suc)
  then show ?thesis
    by (simp add: rawBytes_def Let_def comp_def div_mult2_eq del: upt_Suc)
qed

lemma bytesToNat_rawBytes: "bytesToNat (rawBytes n v True) = v mod 256 ^ n"
proof (induction n arbitrary: v)
  case 0
  show ?case by (simp add: rawBytes_def bytesToNat_Nil)
next
  case (Suc n)
  have "unat (of_nat (v mod 256) :: byte) = v mod 256"
    by (simp add: unat_of_nat)
  then have "bytesToNat (rawBytes (Suc n) v True) = v mod 256 + 256 * (v div 256 mod 256 ^ n)"
    by (simp add: rawBytes_Suc bytesToNat_Cons Suc.IH)
  also have "\<dots> = v mod 256 ^ Suc n"
    by (simp add: mod_mult2_eq)
  finally show ?case .
qed

lemma getViewValue_at:
  "length pre = byteOffset \<Longrightarrow> length bs = n \<Longrightarrow>
   getViewValue (pre @ bs @ post) byteOffset n True = Some (bytesToNat bs)"
  by (simp add: getViewValue_def)


lemma length_headerBytes: "length (headerBytes rate numChannels dataLength) = 44"
  by (simp add: headerBytes_def length_rawBytes)

lemma splice_chunk:
  "length pre = byteOffset \<Longrightarrow> length old = length bs \<Longrightarrow>
   splice (pre @ old @ post) byteOffset bs = pre @ bs @ post"
  by (simp add: splice_def)

lemma length_written: "length done \<le> length view \<Longrightarrow> length (written done view) = length view"
  by (simp add: written_def)

lemma splice_written:
  "length done = byteOffset \<Longrightarrow> byteOffset + length bs \<le> length view \<Longrightarrow>
   splice (written done view) byteOffset bs = written (done @ bs) view"
  by (simp add: splice_def written_def add.commute)

lemma writeWavHeader_closed:
  assumes "44 \<le> length view"
  shows "writeWavHeader view rate numChannels dataLength =
           Some (headerBytes rate numChannels dataLength @ drop 44 view)"
proof -
  have "writeWavHeader (written [] view) rate numChannels dataLength =
          Some (written (headerBytes rate numChannels dataLength) view)"
    using assms
    by (simp add: writeWavHeader_def Let_def setUint32_def setUint16_def setViewValue_def
        splice_written length_written length_rawBytes headerBytes_def)
  then show ?thesis
    by (simp add: written_def length_headerBytes)
qed




lemma audioBufferToWav_closed:
  "audioBufferToWav buffer =
     Some \<lparr>data = headerBytes (sampleRate buffer) (numberOfChannels buffer)
                     (buffer_length buffer * numberOfChannels buffer * 2) @ pcmBytes buffer 0,
           type = ''audio/wav''\<rparr>"
proof -
  let ?n = "numberOfChannels buffer"
  let ?dl = "buffer_length buffer * ?n * 2"
  let ?h = "headerBytes (sampleRate buffer) ?n ?dl"
  let ?view = "?h @ drop 44 (replicate (44 + ?dl) 0)"
  have hdr: "writeWavHeader (replicate (44 + ?dl) 0) (sampleRate buffer) ?n ?dl = Some ?view"
    by (rule writeWavHeader_closed) simp
  have lp: "length (pcmBytes buffer 0) = ?dl"
    by (simp add: length_pcmBytes mult.commute mult.left_commute)
  have "44 + 2 * ?n * (buffer_length buffer - 0) \<le> length ?view"
    by (simp add: length_headerBytes mult.commute mult.left_commute)
  from frameLoop_closed [OF this]
  have loop: "frameLoop buffer 0 ?view 44 =
                Some (splice ?view 44 (pcmBytes buffer 0), 44 + 2 * ?n * (buffer_length buffer - 0))" .
  have "splice ?view 44 (pcmBytes buffer 0) = ?h @ pcmBytes buffer 0"
    using splice_chunk [of ?h 44 "drop 44 (replicate (44 + ?dl) 0)" "pcmBytes buffer 0" "[]"]
    by (simp add: length_headerBytes lp)
  with hdr loop show ?thesis
    by (simp add: audioBufferToWav_def Let_def)
qed

lemma header_field_22:
  "getUint16 (headerBytes rate n d @ rest) 22 True = Some (n mod 2 ^ 16)"
  using getViewValue_at [of "rawBytes 4 (0x52494646 mod 2 ^ 32) False @
     rawBytes 4 ((d + 36) mod 2 ^ 32) True @
     rawBytes 4 (0x57415645 mod 2 ^ 32) False @
     rawBytes 4 (0x666d7420 mod 2 ^ 32) False @
     rawBytes 4 (16 mod 2 ^ 32) True @
     rawBytes 2 (1 mod 2 ^ 16) True" 22 "rawBytes 2 (n mod 2 ^ 16) True" 2]
  by (simp add: getUint16_def headerBytes_def length_rawBytes bytesToNat_rawBytes)

lemma header_field_24:
  "getUint32 (headerBytes rate n d @ rest) 24 True = Some (rate mod 2 ^ 32)"
  using getViewValue_at [of "rawBytes 4 (0x52494646 mod 2 ^ 32) False @
     rawBytes 4 ((d + 36) mod 2 ^ 32) True @
     rawBytes 4 (0x57415645 mod 2 ^ 32) False @
     rawBytes 4 (0x666d7420 mod 2 ^ 32) False @
     rawBytes 4 (16 mod 2 ^ 32) True @
     rawBytes 2 (1 mod 2 ^ 16) True @ rawBytes 2 (n mod 2 ^ 16) True" 24 "rawBytes 4 (rate mod 2 ^ 32) True" 4]
  by (simp add: getUint32_def headerBytes_def length_rawBytes bytesToNat_rawBytes)

lemma header_field_40:
  "getUint32 (headerBytes rate n d @ rest) 40 True = Some (d mod 2 ^ 32)"
  using getViewValue_at [of "rawBytes 4 (0x52494646 mod 2 ^ 32) False @
     rawBytes 4 ((d + 36) mod 2 ^ 32) True @
     rawBytes 4 (0x57415645 mod 2 ^ 32) False @
     rawBytes 4 (0x666d7420 mod 2 ^ 32) False @
     rawBytes 4 (16 mod 2 ^ 32) True @
     rawBytes 2 (1 mod 2 ^ 16) True @ rawBytes 2 (n mod 2 ^ 16) True @
     rawBytes 4 (rate mod 2 ^ 32) True @
     rawBytes 4 (rate * n * 2 mod 2 ^ 32) True @
     rawBytes 2 (n * 2 mod 2 ^ 16) True @
     rawBytes 2 (16 mod 2 ^ 16) True @
     rawBytes 4 (0x64617461 mod 2 ^ 32) False" 40 "rawBytes 4 (d mod 2 ^ 32) True" 4 rest]
  by (simp add: getUint32_def headerBytes_def length_rawBytes bytesToNat_rawBytes)

lemma header_field_4:
  "getUint32 (headerBytes rate n d @ rest) 4 True = Some ((d + 36) mod 2 ^ 32)"
  using getViewValue_at [of "rawBytes 4 (0x52494646 mod 2 ^ 32) False" 4
      "rawBytes 4 ((d + 36) mod 2 ^ 32) True" 4]
  by (simp add: getUint32_def headerBytes_def length_rawBytes bytesToNat_rawBytes)




lemma int16_Finite:
  "int16 (Finite x) =
     Finite (let clamped = max (- 1) (min 1 x)
             in if clamped < 0 then clamped * 32768 else clamped * 32767)"
  by (simp add: int16_def Let_def min_def max_def)

lemma scaled_range:
  fixes x :: real
  defines "c \<equiv> max (- 1) (min 1 x)"
  defines "y \<equiv> (if c < 0 then c * 32768 else c * 32767)"
  shows "- 32768 \<le> y \<and> y \<le> 32767"
proof -
  have "- 1 \<le> c" and "c \<le> 1" by (simp_all add: c_def)
  then show ?thesis by (cases "c < 0") (simp_all add: y_def)
qed

lemma truncate_range:
  "- 32768 \<le> y \<Longrightarrow> y \<le> 32767 \<Longrightarrow> - 32768 \<le> js_truncate y \<and> js_truncate y \<le> 32767"
  unfolding js_truncate_def by (cases "y < 0") (simp_all, linarith+)

lemma ToInt16_no_wrap:
  "- 32768 \<le> js_truncate y \<Longrightarrow> js_truncate y \<le> 32767 \<Longrightarrow> ToInt16 (Finite y) = js_truncate y"
proof -
  assume lo: "- 32768 \<le> js_truncate y" and hi: "js_truncate y \<le> 32767"
  show ?thesis
  proof (cases "0 \<le> js_truncate y")
    case True
    with hi have "js_truncate y mod 65536 = js_truncate y" by simp
    with hi show ?thesis by (simp add: Let_def)
  next
    case False
    with lo have "(js_truncate y + 65536) mod 65536 = js_truncate y + 65536"
      by (intro mod_pos_pos_trivial) simp_all
    then have "js_truncate y mod 65536 = js_truncate y + 65536" by simp
    with lo False show ?thesis by (simp add: Let_def)
  qed
qed

lemma ToInt16_range: "- 32768 \<le> ToInt16 x \<and> ToInt16 x \<le> 32767"
proof (cases x)
  case (Finite r)
  have "0 \<le> js_truncate r mod 65536" "js_truncate r mod 65536 < 65536" by simp_all
  then show ?thesis using Finite by (auto simp: Let_def)
qed simp_all

lemma getInt16_sampleBytes:
  assumes "length pre = byteOffset"
  shows "getInt16 (pre @ sampleBytes x @ post) byteOffset True = Some (ToInt16 (int16 x))"
proof -
  let ?t = "ToInt16 (int16 x)"
  have r: "- 32768 \<le> ?t \<and> ?t \<le> 32767" by (rule ToInt16_range)
  have "getViewValue (pre @ sampleBytes x @ post) byteOffset 2 True = Some (bytesToNat (sampleBytes x))"
    using assms by (rule getViewValue_at) (rule length_sampleBytes)
  moreover have "bytesToNat (sampleBytes x) = nat (?t mod 65536)"
    by (simp add: sampleBytes_def bytesToNat_rawBytes nat_mod_distrib)
  moreover have "(if nat (?t mod 65536) \<ge> 2 ^ 15 then int (nat (?t mod 65536)) - 2 ^ 16
                  else int (nat (?t mod 65536))) = ?t"
  proof (cases "0 \<le> ?t")
    case True
    with r have "?t mod 65536 = ?t" by simp
    with r True show ?thesis by simp
  next
    case False
    with r have "(?t + 65536) mod 65536 = ?t + 65536"
      by (intro mod_pos_pos_trivial) simp_all
    then have "?t mod 65536 = ?t + 65536" by simp
    with r False show ?thesis by simp
  qed
  ultimately show ?thesis by (simp add: getInt16_def)
qed

lemma upt_split: "j \<le> k \<Longrightarrow> [0..<k] = [0..<j] @ [j..<k]"
  using upt_add_eq_append [of 0 j "k - j"] by simp

lemma frameBytes_split:
  assumes "c \<le> numberOfChannels buffer"
  shows "\<exists>pre. frameBytes buffer i 0 = pre @ frameBytes buffer i c \<and> length pre = 2 * c"
proof -
  let ?g = "\<lambda>c. sampleBytes (getSample buffer c i)"
  have "frameBytes buffer i 0 = concat (map ?g [0..<c]) @ frameBytes buffer i c"
    using upt_split [OF assms] by (simp add: frameBytes_def)
  moreover have "length (concat (map ?g [0..<c])) = 2 * c"
    by (simp add: length_concat comp_def length_sampleBytes sum_list_triv)
  ultimately show ?thesis by blast
qed

lemma pcmBytes_split:
  assumes "i \<le> buffer_length buffer"
  shows "\<exists>pre. pcmBytes buffer 0 = pre @ pcmBytes buffer i \<and>
               length pre = 2 * numberOfChannels buffer * i"
proof -
  let ?g = "\<lambda>k. frameBytes buffer k 0"
  have "pcmBytes buffer 0 = concat (map ?g [0..<i]) @ pcmBytes buffer i"
    using upt_split [OF assms] by (simp add: pcmBytes_def)
  moreover have "length (concat (map ?g [0..<i])) = 2 * numberOfChannels buffer * i"
    by (simp add: length_concat comp_def length_frameBytes sum_list_triv)
  ultimately show ?thesis by blast
qed

lemma pcmBytes_at:
  assumes i: "i < buffer_length buffer" and c: "c < numberOfChannels buffer"
  shows "\<exists>pre post. pcmBytes buffer 0 = pre @ sampleBytes (getSample buffer c i) @ post \<and>
                    length pre = 2 * (i * numberOfChannels buffer + c)"
proof -
  obtain p1 where p1: "pcmBytes buffer 0 = p1 @ pcmBytes buffer i"
      and l1: "length p1 = 2 * numberOfChannels buffer * i"
    using pcmBytes_split [of i buffer] i by auto
  obtain p2 where p2: "frameBytes buffer i 0 = p2 @ frameBytes buffer i c"
      and l2: "length p2 = 2 * c"
    using frameBytes_split [of c buffer i] c by auto
  have "pcmBytes buffer 0 =
          (p1 @ p2) @ sampleBytes (getSample buffer c i) @
          (frameBytes buffer i (Suc c) @ pcmBytes buffer (Suc i))"
    by (simp add: p1 pcmBytes_step [OF i] p2 frameBytes_step [OF c])
  moreover have "length (p1 @ p2) = 2 * (i * numberOfChannels buffer + c)"
    by (simp add: l1 l2 algebra_simps)
  ultimately show ?thesis by blast
qed

subsection \<open>The encoder's output, byte for byte\<close>

lemma getSample_valid:
  assumes "valid buffer" and "i < buffer_length buffer" and "c < numberOfChannels buffer"
  shows "getSample buffer c i = channelData buffer ! c ! i"
proof -
  have "channelData buffer ! c \<in> set (channelData buffer)"
    using assms(3) by (simp add: numberOfChannels_def)
  with assms(1) have "length (channelData buffer ! c) = buffer_length buffer"
    by (simp add: valid_def list_all_iff)
  with assms(2) show ?thesis
    by (simp add: getSample_def Let_def)
qed

lemma js_truncate_floor_ceiling: "js_truncate y = (if 0 \<le> y then \<lfloor>y\<rfloor> else \<lceil>y\<rceil>)"
proof (cases "y < 0")
  case True
  then have "\<not> 0 \<le> y" by simp
  with True show ?thesis
    by (simp only: js_truncate_def ceiling_def if_True if_False)
next
  case False
  then have "0 \<le> y" by simp
  with False show ?thesis
    by (simp only: js_truncate_def if_True if_False)
qed

lemma spec_pcm16_eq: "ToInt16 (int16 (Finite x)) = spec_pcm16 x"
proof -
  define y where "y = (let clamped = max (- 1) (min 1 x)
                       in if clamped < 0 then clamped * 32768 else clamped * 32767)"
  have r: "- 32768 \<le> y \<and> y \<le> 32767"
    unfolding y_def Let_def by (rule scaled_range)
  then have "- 32768 \<le> js_truncate y \<and> js_truncate y \<le> 32767"
    by (simp add: truncate_range)
  then have "ToInt16 (Finite y) = js_truncate y"
    using ToInt16_no_wrap [of y] by blast
  moreover have "int16 (Finite x) = Finite y"
    by (simp only: int16_Finite y_def)
  moreover have "spec_pcm16 x = (if 0 \<le> y then \<lfloor>y\<rfloor> else \<lceil>y\<rceil>)"
    by (simp only: spec_pcm16_def y_def Let_def)
  ultimately show ?thesis
    by (simp only: js_truncate_floor_ceiling)
qed

text \<open>
  C6 (as amended). For every buffer, with or without channels of equal length, the encoder
  returns a container of exactly \<open>44 + frameCount \<times> channelCount \<times> 2\<close> bytes. Each header
  field read back little-endian at its offset gives the input value whenever that value
  fits the field: the channel count at 22 when below \<open>2^16\<close>, the sample rate at 24 when
  below \<open>2^32\<close>, the data length at 40 when below \<open>2^32\<close>, and at 4 the data length plus
  36 when that is below \<open>2^32\<close>.
\<close>

theorem wav_length_and_header_roundtrip:
  "\<exists>blob. audioBufferToWav buffer = Some blob
     \<and> length (data blob) = 44 + buffer_length buffer * numberOfChannels buffer * 2
     \<and> (numberOfChannels buffer < 2 ^ 16
          \<longrightarrow> getUint16 (data blob) 22 True = Some (numberOfChannels buffer))
     \<and> (sampleRate buffer < 2 ^ 32
          \<longrightarrow> getUint32 (data blob) 24 True = Some (sampleRate buffer))
     \<and> (buffer_length buffer * numberOfChannels buffer * 2 < 2 ^ 32
          \<longrightarrow> getUint32 (data blob) 40 True
                = Some (buffer_length buffer * numberOfChannels buffer * 2))
     \<and> (buffer_length buffer * numberOfChannels buffer * 2 + 36 < 2 ^ 32
          \<longrightarrow> getUint32 (data blob) 4 True
                = Some (buffer_length buffer * numberOfChannels buffer * 2 + 36))"
proof -
  let ?dl = "buffer_length buffer * numberOfChannels buffer * 2"
  have "length (pcmBytes buffer 0) = ?dl"
    by (simp add: length_pcmBytes mult.commute mult.left_commute)
  then show ?thesis
    by (simp add: audioBufferToWav_closed length_headerBytes header_field_22 header_field_24
        header_field_40 header_field_4)
qed

theorem wav_length_and_header_roundtrip_witness:
  "numberOfChannels stereoBuffer < 2 ^ 16 \<and> sampleRate stereoBuffer < 2 ^ 32
   \<and> buffer_length stereoBuffer * numberOfChannels stereoBuffer * 2 + 36 < 2 ^ 32
   \<and> (\<exists>blob. audioBufferToWav stereoBuffer = Some blob
         \<and> length (data blob) = 52
         \<and> getUint16 (data blob) 22 True = Some 2
         \<and> getUint32 (data blob) 24 True = Some 16000
         \<and> getUint32 (data blob) 40 True = Some 8
         \<and> getUint32 (data blob) 4 True = Some 44)"
proof -
  have n: "numberOfChannels stereoBuffer = 2"
    by (simp add: stereoBuffer_def numberOfChannels_def)
  have r: "sampleRate stereoBuffer = 16000" and l: "buffer_length stereoBuffer = 2"
    by (simp_all add: stereoBuffer_def)
  show ?thesis
    using wav_length_and_header_roundtrip [of stereoBuffer] by (simp add: n r l)
qed

text \<open>
  C6 as stated fails where the data length does not fit its field: the well-formed mono
  buffer of \<open>2^31\<close> frames has \<open>2^32\<close> bytes of samples, and its header holds the data
  length 0 and the chunk size 36.
\<close>

theorem wav_header_data_length_counterexample:
  "valid longBuffer
   \<and> buffer_length longBuffer * numberOfChannels longBuffer * 2 = 4294967296
   \<and> audioBufferToWav longBuffer \<noteq> None
   \<and> getUint32 (data (the (audioBufferToWav longBuffer))) 40 True = Some 0
   \<and> getUint32 (data (the (audioBufferToWav longBuffer))) 4 True = Some 36"
proof -
  have long: "valid longBuffer"
    and len: "buffer_length longBuffer * numberOfChannels longBuffer * 2 = 4294967296"
    by (simp_all add: longBuffer_def valid_def numberOfChannels_def)
  have "getUint32 (data (the (audioBufferToWav longBuffer))) 40 True = Some 0"
    and "getUint32 (data (the (audioBufferToWav longBuffer))) 4 True = Some 36"
    by (simp_all add: audioBufferToWav_closed header_field_40 header_field_4 len)
  with long len show ?thesis
    by (simp add: audioBufferToWav_closed)
qed

text \<open>
  C7. In the container of a well-formed buffer, the sample of frame \<open>i\<close> and channel \<open>c\<close>
  is the little-endian signed 16-bit integer at offset \<open>44 + 2 \<times> (i \<times> channelCount + c)\<close>
  (frames in order, the channels of a frame next to each other); for a finite sample its
  value is the sample clamped to \<open>[-1, 1]\<close>, scaled by 32768 when negative and by 32767
  otherwise, and truncated towards zero; \<open>+1.0\<close> is stored as 32767 and \<open>-1.0\<close> as \<open>-32768\<close>.
\<close>

theorem wav_sample_conversion:
  assumes "valid buffer" and "i < buffer_length buffer" and "c < numberOfChannels buffer"
  shows "(\<exists>blob. audioBufferToWav buffer = Some blob
            \<and> getInt16 (data blob) (44 + 2 * (i * numberOfChannels buffer + c)) True
                = Some (ToInt16 (int16 (channelData buffer ! c ! i))))
         \<and> ToInt16 (int16 (Finite x)) = spec_pcm16 x
         \<and> ToInt16 (int16 (Finite 1)) = 32767
         \<and> ToInt16 (int16 (Finite (- 1))) = - 32768"
proof -
  let ?n = "numberOfChannels buffer"
  let ?h = "headerBytes (sampleRate buffer) ?n (buffer_length buffer * ?n * 2)"
  let ?s = "channelData buffer ! c ! i"
  obtain pre post where split: "pcmBytes buffer 0 = pre @ sampleBytes (getSample buffer c i) @ post"
      and len: "length pre = 2 * (i * ?n + c)"
    using pcmBytes_at [OF assms(2,3)] by blast
  have s: "getSample buffer c i = ?s"
    using assms by (rule getSample_valid)
  have "length (?h @ pre) = 44 + 2 * (i * ?n + c)"
    by (simp add: length_headerBytes len)
  then have "getInt16 ((?h @ pre) @ sampleBytes ?s @ post) (44 + 2 * (i * ?n + c)) True
               = Some (ToInt16 (int16 ?s))"
    by (rule getInt16_sampleBytes)
  then have "getInt16 (?h @ pcmBytes buffer 0) (44 + 2 * (i * ?n + c)) True
               = Some (ToInt16 (int16 ?s))"
    by (simp add: split s)
  then have "\<exists>blob. audioBufferToWav buffer = Some blob
            \<and> getInt16 (data blob) (44 + 2 * (i * ?n + c)) True = Some (ToInt16 (int16 ?s))"
    by (simp add: audioBufferToWav_closed)
  moreover have "spec_pcm16 1 = 32767" and "spec_pcm16 (- 1) = - 32768"
    by (simp_all add: spec_pcm16_def)
  ultimately show ?thesis
    by (simp add: spec_pcm16_eq)
qed

theorem wav_sample_conversion_witness:
  "valid stereoBuffer \<and> 1 < buffer_length stereoBuffer \<and> 1 < numberOfChannels stereoBuffer
   \<and> (\<exists>blob. audioBufferToWav stereoBuffer = Some blob
         \<and> getInt16 (data blob) 50 True = Some (- 32768))"
proof -
  have v: "valid stereoBuffer"
    by (simp add: stereoBuffer_def valid_def)
  have i: "1 < buffer_length stereoBuffer"
    by (simp add: stereoBuffer_def)
  have c: "1 < numberOfChannels stereoBuffer"
    by (simp add: stereoBuffer_def numberOfChannels_def)
  have "ToInt16 (int16 (channelData stereoBuffer ! 1 ! 1)) = - 32768"
    by (simp add: stereoBuffer_def spec_pcm16_eq spec_pcm16_def)
  moreover have "44 + 2 * (1 * numberOfChannels stereoBuffer + 1) = 50"
    by (simp add: stereoBuffer_def numberOfChannels_def)
  ultimately show ?thesis
    using wav_sample_conversion [OF v i c] v i c by simp
qed

text \<open>
  C10. Whatever the finite input sample, the value handed to \<^verbatim>\<open>setInt16\<close> already lies
  in \<open>[-32768, 32767]\<close>, because the clamp precedes the scaling; so the modular reduction
  of the 16-bit store leaves its truncation unchanged, and the stored integer is in range.
  The infinities are stored as the extreme values and NaN as 0.
\<close>

theorem wav_stored_sample_never_wraps:
  "(\<exists>y. int16 (Finite x) = Finite y \<and> - 32768 \<le> y \<and> y \<le> 32767
        \<and> ToInt16 (Finite y) = js_truncate y
        \<and> - 32768 \<le> js_truncate y \<and> js_truncate y \<le> 32767)
   \<and> ToInt16 (int16 PosInfinity) = 32767
   \<and> ToInt16 (int16 NegInfinity) = - 32768
   \<and> ToInt16 (int16 NaN) = 0"
proof -
  define y where "y = (let clamped = max (- 1) (min 1 x)
                       in if clamped < 0 then clamped * 32768 else clamped * 32767)"
  have r: "- 32768 \<le> y \<and> y \<le> 32767"
    unfolding y_def Let_def by (rule scaled_range)
  then have t: "- 32768 \<le> js_truncate y \<and> js_truncate y \<le> 32767"
    by (simp add: truncate_range)
  then have "ToInt16 (Finite y) = js_truncate y"
    using ToInt16_no_wrap [of y] by blast
  with r t have "\<exists>y. int16 (Finite x) = Finite y \<and> - 32768 \<le> y \<and> y \<le> 32767
        \<and> ToInt16 (Finite y) = js_truncate y
        \<and> - 32768 \<le> js_truncate y \<and> js_truncate y \<le> 32767"
    by (simp add: int16_Finite y_def [symmetric])
  moreover have "ToInt16 (int16 PosInfinity) = 32767" "ToInt16 (int16 NegInfinity) = - 32768"
      "ToInt16 (int16 NaN) = 0"
    by (simp_all add: int16_def Let_def js_truncate_def)
  ultimately show ?thesis by simp
qed

section \<open>Properties of the response parser\<close>

lemma not_isSpace_backtick: "\<not> isSpace (CHR 0x60)"
  by (simp add: isSpace_def)

lemma prefix_fence_not_space: "prefix fence (c # cs) \<Longrightarrow> \<not> isSpace c"
  by (auto simp: fence_def isSpace_def)

lemma greedySpaces_run:
  "list_all isSpace ws \<Longrightarrow> greedySpaces k r = Some v \<Longrightarrow> greedySpaces k (ws @ r) = Some v"
  by (induction ws) simp_all

lemma greedySpaces_stop: "r = [] \<or> \<not> isSpace (hd r) \<Longrightarrow> greedySpaces k r = k r"
  by (cases r) auto

lemma closing_iff: "closing s = (if prefix fence (dropWhile isSpace s) then Some () else None)"
proof (induction s)
  case Nil
  show ?case by (simp add: closing_def)
next
  case (Cons c cs)
  show ?case
  proof (cases "isSpace c")
    case True
    then have "\<not> prefix fence (c # cs)"
      using prefix_fence_not_space by blast
    with True Cons show ?thesis
      by (auto simp: closing_def)
  next
    case False
    then show ?thesis by (simp add: closing_def)
  qed
qed

lemma lazyGroup_shortest:
  assumes "prefix fence (dropWhile isSpace rest)"
    and "\<And>j. j < length body \<Longrightarrow> \<not> prefix fence (dropWhile isSpace (drop j body @ rest))"
  shows "lazyGroup (body @ rest) = Some body"
  using assms(2)
proof (induction body)
  case Nil
  from assms(1) show ?case
    by (cases rest) (simp_all add: closing_iff)
next
  case (Cons c cs)
  have "\<not> prefix fence (dropWhile isSpace (drop 0 (c # cs) @ rest))"
    by (rule Cons.prems) simp
  then have stay: "closing (c # cs @ rest) = None"
    by (simp add: closing_iff)
  have "lazyGroup (cs @ rest) = Some cs"
  proof (rule Cons.IH)
    fix j assume "j < length cs"
    then have "\<not> prefix fence (dropWhile isSpace (drop (Suc j) (c # cs) @ rest))"
      by (intro Cons.prems) simp
    then show "\<not> prefix fence (dropWhile isSpace (drop j cs @ rest))" by simp
  qed
  with stay show ?case by simp
qed

lemma regexMatch_sublist: "regexMatch s = Some g \<Longrightarrow> sublist fence s"
proof (induction s)
  case Nil
  then show ?case by simp
next
  case (Cons c cs)
  show ?case
  proof (cases "prefix fence (c # cs)")
    case True
    then show ?thesis by (rule prefix_imp_sublist)
  next
    case False
    with Cons.prems have "regexMatch cs = Some g" by simp
    then have "sublist fence cs" by (rule Cons.IH)
    then show ?thesis by (rule sublist_Cons_right [THEN iffD2, OF disjI2])
  qed
qed

lemma regexMatch_first:
  assumes "afterOpen s = Some g"
    and "\<not> sublist fence (pre @ [CHR 0x60, CHR 0x60])"
  shows "regexMatch (pre @ fence @ s) = Some g"
  using assms(2)
proof (induction pre)
  case Nil
  with assms(1) show ?case by (simp add: fence_def)
next
  case (Cons c cs)
  from Cons.prems have no: "\<not> prefix fence (c # cs @ [CHR 0x60, CHR 0x60])"
    and rest: "\<not> sublist fence (cs @ [CHR 0x60, CHR 0x60])"
    by (simp_all add: sublist_Cons_right)
  have "\<not> prefix fence (c # cs @ fence @ s)"
  proof
    assume p: "prefix fence (c # cs @ fence @ s)"
    have "take 3 (c # cs @ fence @ s) = take 3 (c # cs @ [CHR 0x60, CHR 0x60])"
      by (cases cs; cases "tl cs") (simp_all add: fence_def)
    moreover have "take 3 (c # cs @ fence @ s) = fence"
    proof -
      from p obtain zs where "c # cs @ fence @ s = fence @ zs"
        by (auto simp: prefix_def)
      then have "take 3 (c # cs @ fence @ s) = take 3 (fence @ zs)"
        by (rule arg_cong)
      also have "\<dots> = fence"
        by (simp add: fence_def)
      finally show ?thesis .
    qed
    ultimately have "prefix fence (c # cs @ [CHR 0x60, CHR 0x60])"
      by (metis take_is_prefix)
    with no show False ..
  qed
  moreover have "regexMatch (cs @ fence @ s) = Some g"
    using rest by (rule Cons.IH)
  ultimately show ?case by simp
qed

lemma last_dropWhile:
  "xs \<noteq> [] \<Longrightarrow> \<not> P (last xs) \<Longrightarrow> dropWhile P xs \<noteq> [] \<and> last (dropWhile P xs) = last xs"
  by (induction xs) (auto split: if_splits)

lemma body_never_closes:
  assumes ne: "body \<noteq> []" and sp: "\<not> isSpace (last body)" and bt: "last body \<noteq> CHR 0x60"
    and nf: "\<not> sublist fence body" and j: "j < length body"
  shows "\<not> prefix fence (dropWhile isSpace (drop j body @ rest))"
proof
  let ?b = "drop j body"
  let ?d = "dropWhile isSpace ?b"
  assume p: "prefix fence (dropWhile isSpace (?b @ rest))"
  from j have b: "?b \<noteq> []" and lb: "last ?b = last body" by simp_all
  with sp have d: "?d \<noteq> []" and ld: "last ?d = last body"
    using last_dropWhile [of ?b isSpace] by simp_all
  from b have "last ?b \<in> set ?b" by (rule last_in_set)
  moreover from sp lb have "\<not> isSpace (last ?b)" by simp
  ultimately have "last ?b \<in> set ?b" and "\<not> isSpace (last ?b)" .
  then have "dropWhile isSpace (?b @ rest) = ?d @ rest"
    by (rule dropWhile_append1)
  with p have "prefix fence (?d @ rest)" by simp
  then consider "prefix fence ?d" | us where "fence = ?d @ us"
    by (auto simp: prefix_append)
  then show False
  proof cases
    case 1
    then have "sublist fence ?d" by (rule prefix_imp_sublist)
    moreover have "sublist ?d ?b" by (rule sublist_dropWhile)
    moreover have "sublist ?b body" by (rule sublist_drop)
    ultimately have "sublist fence body"
      by (blast intro: sublist_order.order_trans)
    with nf show False ..
  next
    case 2
    from d have "last ?d \<in> set ?d" by simp
    with 2 have "last ?d \<in> set fence" by (metis Un_iff set_append)
    with ld bt show False by (simp add: fence_def)
  qed
qed

lemma lazyGroup_body:
  assumes "body \<noteq> []" and "\<not> isSpace (last body)" and "last body \<noteq> CHR 0x60"
    and "\<not> sublist fence body" and ws: "list_all isSpace ws2"
  shows "lazyGroup (body @ ws2 @ fence @ post) = Some body"
proof (rule lazyGroup_shortest)
  from ws have "dropWhile isSpace (ws2 @ fence @ post) = dropWhile isSpace (fence @ post)"
    by (intro dropWhile_append2) (simp add: list_all_iff)
  also have "\<dots> = fence @ post"
    by (simp add: fence_def isSpace_def)
  finally show "prefix fence (dropWhile isSpace (ws2 @ fence @ post))" by simp
next
  fix j assume "j < length body"
  with assms(1-4) show "\<not> prefix fence (dropWhile isSpace (drop j body @ ws2 @ fence @ post))"
    by (rule body_never_closes)
qed

lemma afterOpen_object:
  assumes body: "body = CHR ''{'' # mid @ [CHR ''}'']"
    and nf: "\<not> sublist fence body"
    and tag: "tag = [] \<or> tag = ''json''"
    and ws1: "list_all isSpace ws1" and ws2: "list_all isSpace ws2"
  shows "afterOpen (tag @ ws1 @ body @ ws2 @ fence @ post) = Some body"
proof -
  let ?R = "ws2 @ fence @ post"
  have "body \<noteq> []" "\<not> isSpace (last body)" "last body \<noteq> CHR 0x60"
    by (simp_all add: body isSpace_def)
  then have "lazyGroup (body @ ?R) = Some body"
    using nf ws2 by (rule lazyGroup_body)
  moreover have "\<not> isSpace (hd (body @ ?R))"
    by (simp add: body isSpace_def)
  ultimately have "greedySpaces lazyGroup (body @ ?R) = Some body"
    by (simp add: greedySpaces_stop)
  with ws1 have run: "greedySpaces lazyGroup (ws1 @ body @ ?R) = Some body"
    by (rule greedySpaces_run)
  from tag show ?thesis
  proof
    assume t: "tag = []"
    have "\<not> prefix ''json'' (ws1 @ body @ ?R)"
    proof (cases ws1)
      case Nil
      then show ?thesis by (simp add: body)
    next
      case (Cons w ws)
      with ws1 have "isSpace w" by simp
      then have "w \<noteq> CHR ''j''" by (auto simp: isSpace_def)
      with Cons show ?thesis by simp
    qed
    with run t show ?thesis by (simp add: afterOpen_def)
  next
    assume "tag = ''json''"
    with run show ?thesis by (simp add: afterOpen_def)
  qed
qed

text \<open>
  C8 (as amended). Let the response text hold a fenced block: three backticks, optionally
  the tag \<^verbatim>\<open>json\<close>, white space, the text of a JSON object (from its opening to its
  closing brace), white space, three backticks. If no run of three backticks begins before
  the opening fence and the object's text contains none, the parser's result is the result
  of parsing the object's text; and for the same object without fence the parser parses the
  whole text, so both results are the same. This holds for every function in the place of
  \<^verbatim>\<open>JSON.parse\<close>.
\<close>

theorem fenced_object:
  assumes body: "body = CHR ''{'' # mid @ [CHR ''}'']"
    and nf: "\<not> sublist fence body"
    and tag: "tag = [] \<or> tag = ''json''"
    and ws1: "list_all isSpace ws1" and ws2: "list_all isSpace ws2"
    and first: "\<not> sublist fence (pre @ [CHR 0x60, CHR 0x60])"
  shows "cleanAndParseJSON parse (pre @ fence @ tag @ ws1 @ body @ ws2 @ fence @ post) = parse body
         \<and> cleanAndParseJSON parse body = parse body"
proof -
  have "afterOpen (tag @ ws1 @ body @ ws2 @ fence @ post) = Some body"
    using body nf tag ws1 ws2 by (rule afterOpen_object)
  then have "regexMatch (pre @ fence @ tag @ ws1 @ body @ ws2 @ fence @ post) = Some body"
    using first by (rule regexMatch_first)
  moreover have "regexMatch body = None"
    using nf regexMatch_sublist [of body] by (cases "regexMatch body") auto
  ultimately show ?thesis
    by (simp add: cleanAndParseJSON_def)
qed

text \<open>The specification's example: the fenced and the bare response give the same tree.\<close>

theorem fenced_object_witness:
  \<open>cleanAndParseJSON JSON_text (fence @ ''json'' @ [CHR 0x0A] @ exampleObject @ [CHR 0x0A] @ fence)
     = JSON_text exampleObject
   \<and> cleanAndParseJSON JSON_text exampleObject = JSON_text exampleObject
   \<and> JSON_text exampleObject =
       Some (JObject [(''transcript'', JString ''hi''), (''summary'', JString ''s''),
                      (''sentiment'', JString ''Neutral''), (''actionItems'', JArray []),
                      (''keyInsights'', JArray [])])\<close>
proof -
  have shape: "exampleObject = CHR ''{'' # butlast (tl exampleObject) @ [CHR ''}'']"
    by code_simp
  have nf: "\<not> sublist fence exampleObject" by code_simp
  have tag: "''json'' = [] \<or> ''json'' = ''json''" by simp
  have ws: "list_all isSpace [CHR 0x0A]" by (simp add: isSpace_def)
  have first: "\<not> sublist fence ([] @ [CHR 0x60, CHR 0x60])" by code_simp
  have tree: \<open>JSON_text exampleObject =
       Some (JObject [(''transcript'', JString ''hi''), (''summary'', JString ''s''),
                      (''sentiment'', JString ''Neutral''), (''actionItems'', JArray []),
                      (''keyInsights'', JArray [])])\<close>
    by code_simp
  from fenced_object [OF shape nf tag ws ws first, of JSON_text "[]"] tree
  show ?thesis by simp
qed

text \<open>
  C8 as stated fails for an object whose text contains three backticks: the lazy group
  stops at the backticks inside the string, the parser is handed the truncated text and
  fails, although the interior of the block is a valid object. It also fails when another
  fence precedes the block: the match starts at the first fence, and what is parsed is not
  the object.
\<close>

theorem fenced_object_counterexample:
  \<open>cleanAndParseJSON JSON_text (fence @ ''json'' @ [CHR 0x0A] @ backtickObject @ [CHR 0x0A] @ fence)
     = None
   \<and> JSON_text backtickObject = Some (JObject [(''a'', JString fence)])
   \<and> cleanAndParseJSON JSON_text twoBlocks = None
   \<and> JSON_text ''{}'' = Some (JObject [])\<close>
  by code_simp

section \<open>Properties of the orchestrator\<close>

subsection \<open>One turn of the retry loop\<close>

lemma requests_append: "requests (xs @ ys) = requests xs + requests ys"
  by (simp add: requests_def)

lemma requestLoop_success:
  assumes "attempt < 3" and "tryRequest env (requests trace) mimeType base64Data = Inr result"
  shows "requestLoop env mimeType base64Data attempt trace =
           (Inr result, trace @ [Requested mimeType base64Data])"
  using assms by (subst requestLoop.simps) (simp add: maxRetries_def)

lemma requestLoop_retry:
  assumes "attempt < 2" and "tryRequest env (requests trace) mimeType base64Data = Inl error"
    and "isRetryable error" and "next = attempt + 1" and "ms = 2000 * 2 ^ next"
  shows "requestLoop env mimeType base64Data attempt trace =
           requestLoop env mimeType base64Data next
             (trace @ [Requested mimeType base64Data, Waited ms])"
  using assms by (subst requestLoop.simps) (simp add: maxRetries_def)

lemma requestLoop_final:
  assumes "attempt < 3" and "tryRequest env (requests trace) mimeType base64Data = Inl error"
    and "\<not> isRetryable error \<or> attempt = 2"
  shows "requestLoop env mimeType base64Data attempt trace =
           (Inl (if messageIncludes error ''400''
                 then Error ''Invalid request. The file format might not be supported.''
                 else error),
            trace @ [Requested mimeType base64Data])"
  using assms by (subst requestLoop.simps) (auto simp: maxRetries_def)

lemma tryRequest_Throws:
  "generateContent env n mimeType base64Data = Throws error \<Longrightarrow>
   tryRequest env n mimeType base64Data = Inl error"
  by (simp add: tryRequest_def)

lemma tryRequest_empty:
  "generateContent env n mimeType base64Data = Returns text \<Longrightarrow> text = None \<or> text = Some [] \<Longrightarrow>
   tryRequest env n mimeType base64Data = Inl (Error ''Empty response from Gemini'')"
  by (auto simp: tryRequest_def)

lemma tryRequest_parsed:
  "generateContent env n mimeType base64Data = Returns (Some text) \<Longrightarrow> text \<noteq> [] \<Longrightarrow>
   cleanAndParseJSON (JSON_parse env) text = Some result \<Longrightarrow>
   tryRequest env n mimeType base64Data = Inr result"
  by (simp add: tryRequest_def)

lemma conversion_trace:
  "snd (conversion env input) = (if needsConversion input then [Converted input] else [])"
  by (simp add: conversion_def split: option.splits)

lemma requests_conversion: "requests (snd (conversion env input)) = 0"
  by (simp add: conversion_trace requests_def)

lemma prepare_requests:
  assumes "prepare env input = (r, trace)"
  shows "requests trace = 0"
proof -
  have "requests (snd (prepare env input)) = 0"
    using requests_conversion [of env input]
    by (auto simp: prepare_def Let_def requests_append requests_def
        split: prod.splits sum.splits)
  with assms show ?thesis by simp
qed

lemma analyzeAudio_requesting:
  "prepare env input = (Inr (mimeType, base64Data), trace) \<Longrightarrow>
   analyzeAudio env input = requestLoop env mimeType base64Data 0 trace"
  by (simp add: analyzeAudio_def)

lemma not_retryable_Error_empty: "\<not> isRetryable (Error ''Empty response from Gemini'')"
  by code_simp

lemma not_400_Error_empty: "\<not> messageIncludes (Error ''Empty response from Gemini'') ''400''"
  by code_simp

lemma first_retry:
  assumes "requests trace = 0" and "generateContent env 0 mimeType base64Data = Throws error"
    and "isRetryable error"
  shows "requestLoop env mimeType base64Data 0 trace =
           requestLoop env mimeType base64Data 1
             (trace @ [Requested mimeType base64Data, Waited 4000])"
proof -
  have "tryRequest env (requests trace) mimeType base64Data = Inl error"
    using assms(1,2) by (simp add: tryRequest_Throws)
  then show ?thesis
    using assms(3) by (rule requestLoop_retry [rotated]) simp_all
qed

lemma second_retry:
  assumes "requests trace = 0" and "generateContent env 1 mimeType base64Data = Throws error"
    and "isRetryable error"
  shows "requestLoop env mimeType base64Data 1
           (trace @ [Requested mimeType base64Data, Waited 4000]) =
         requestLoop env mimeType base64Data 2
           (trace @ [Requested mimeType base64Data, Waited 4000,
                     Requested mimeType base64Data, Waited 8000])"
proof -
  let ?t = "trace @ [Requested mimeType base64Data, Waited 4000]"
  have "requests ?t = 1"
    using assms(1) by (simp add: requests_append) (simp add: requests_def)
  then have "tryRequest env (requests ?t) mimeType base64Data = Inl error"
    using assms(2) by (simp add: tryRequest_Throws)
  then have "requestLoop env mimeType base64Data 1 ?t =
      requestLoop env mimeType base64Data 2 (?t @ [Requested mimeType base64Data, Waited 8000])"
    using assms(3) by (rule requestLoop_retry [rotated]) simp_all
  then show ?thesis by (simp only: append_assoc append_Cons append_Nil)
qed

lemma requests_after_two:
  "requests trace = 0 \<Longrightarrow>
   requests (trace @ [Requested mimeType base64Data, Waited 4000,
                      Requested mimeType base64Data, Waited 8000]) = 2"
  by (simp add: requests_append) (simp add: requests_def)

lemma requests_after_one:
  "requests trace = 0 \<Longrightarrow> requests (trace @ [Requested mimeType base64Data, Waited 4000]) = 1"
  by (simp add: requests_append) (simp add: requests_def)

lemma retries_0: "retries m d 0 = []"
  by (simp add: retries_def)

lemma retries_1: "retries m d 1 = [Requested m d, Waited 4000]"
  by (simp add: retries_def)

lemma retries_2: "retries m d 2 = [Requested m d, Waited 4000, Requested m d, Waited 8000]"
proof -
  have "[0..<2] = [0, 1]" by (simp add: upt_rec)
  then show ?thesis by (simp add: retries_def)
qed

subsection \<open>Events of a call\<close>

lemma loop_event_not_converted: "isLoopEvent e \<Longrightarrow> \<not> isConverted e"
  by (cases e) simp_all

lemma requestLoop_trace:
  "\<exists>more. snd (requestLoop env mimeType base64Data attempt trace) = trace @ more
          \<and> list_all isLoopEvent more"
proof (induction env mimeType base64Data attempt trace rule: requestLoop.induct)
  case (1 env mimeType base64Data attempt trace)
  show ?case
  proof (cases "attempt < maxRetries")
    case False
    then show ?thesis by (subst requestLoop.simps) simp
  next
    case True
    show ?thesis
    proof (cases "tryRequest env (requests trace) mimeType base64Data")
      case (Inr result)
      with True show ?thesis by (subst requestLoop.simps) simp
    next
      case (Inl error)
      show ?thesis
      proof (cases "isRetryable error \<and> attempt < maxRetries - 1")
        case retry: True
        let ?t = "trace @ [Requested mimeType base64Data, Waited (2000 * 2 ^ (attempt + 1))]"
        from "1.IH" [OF True Inl retry] obtain more
          where more: "snd (requestLoop env mimeType base64Data (attempt + 1) ?t) = ?t @ more"
            and loop: "list_all isLoopEvent more"
          by blast
        have "requestLoop env mimeType base64Data attempt trace =
                requestLoop env mimeType base64Data (attempt + 1) ?t"
          using True Inl retry by (subst requestLoop.simps) simp
        with more have "snd (requestLoop env mimeType base64Data attempt trace) =
            trace @ ([Requested mimeType base64Data, Waited (2000 * 2 ^ (attempt + 1))] @ more)"
          by simp
        moreover from loop
        have "list_all isLoopEvent
                ([Requested mimeType base64Data, Waited (2000 * 2 ^ (attempt + 1))] @ more)"
          by simp
        ultimately show ?thesis by blast
      next
        case False
        with True Inl show ?thesis by (subst requestLoop.simps) auto
      qed
    qed
  qed
qed

lemma prepare_with_key:
  assumes "API_KEY env = Some k" and "k \<noteq> []"
    and "conversion env input = (Inr (finalBlob, finalMimeType), trace)"
  shows "prepare env input =
           (if blobSize finalBlob > 10 * 1024 * 1024
            then (Inl (Error (sizeLimitMessage (blobSize finalBlob))), trace)
            else (case fileToGenerativePart env finalBlob of
                    Inl error \<Rightarrow> (Inl error, trace @ [Encoded finalBlob])
                  | Inr base64Data \<Rightarrow>
                      (Inr (if finalMimeType = ''audio/wav'' then ''audio/wav''
                            else getMimeType finalBlob (Some (name input)), base64Data),
                       trace @ [Encoded finalBlob])))"
  using assms by (auto simp: prepare_def Let_def split: sum.splits)

lemma prepare_trace:
  assumes "API_KEY env = Some k" and "k \<noteq> []"
  shows "\<exists>more. snd (prepare env input) = snd (conversion env input) @ more
           \<and> list_all (\<lambda>e. \<not> isConverted e) more"
proof (cases "conversion env input")
  case (Pair r trace)
  show ?thesis
  proof (cases r)
    case (Inl error)
    with Pair assms show ?thesis by (simp add: prepare_def)
  next
    case (Inr b)
    obtain finalBlob finalMimeType where b: "b = (finalBlob, finalMimeType)"
      by (cases b)
    from Pair Inr b have "conversion env input = (Inr (finalBlob, finalMimeType), trace)"
      by simp
    from prepare_with_key [OF assms this] Pair show ?thesis
      by (auto split: sum.splits)
  qed
qed

lemma analyzeAudio_trace:
  "\<exists>more. snd (analyzeAudio env input) = snd (prepare env input) @ more
          \<and> list_all isLoopEvent more"
proof (cases "prepare env input")
  case (Pair r trace)
  show ?thesis
  proof (cases r)
    case (Inl error)
    with Pair show ?thesis by (simp add: analyzeAudio_def)
  next
    case (Inr b)
    obtain mimeType base64Data where "b = (mimeType, base64Data)"
      by (cases b)
    with Pair Inr have "analyzeAudio env input = requestLoop env mimeType base64Data 0 trace"
      by (simp add: analyzeAudio_def)
    with Pair requestLoop_trace [of env mimeType base64Data 0 trace] show ?thesis
      by simp
  qed
qed

lemma analyzeAudio_converted:
  assumes "API_KEY env = Some k" and "k \<noteq> []"
  shows "filter isConverted (snd (analyzeAudio env input)) =
           (if needsConversion input then [Converted input] else [])"
proof -
  obtain m1 where m1: "snd (prepare env input) = snd (conversion env input) @ m1"
      and n1: "list_all (\<lambda>e. \<not> isConverted e) m1"
    using prepare_trace [OF assms] by blast
  obtain m2 where m2: "snd (analyzeAudio env input) = snd (prepare env input) @ m2"
      and n2: "list_all isLoopEvent m2"
    using analyzeAudio_trace by blast
  from n1 have "filter isConverted m1 = []"
    by (simp add: list_all_iff filter_empty_conv)
  moreover from n2 have "filter isConverted m2 = []"
    by (auto simp: list_all_iff filter_empty_conv dest: loop_event_not_converted)
  ultimately show ?thesis
    by (simp add: m1 m2 conversion_trace)
qed

lemma suffix_same_length:
  assumes "suffix a s" and "suffix b s" and "length a = length b"
  shows "a = b"
proof -
  from assms(1) obtain p where "s = p @ a" by (auto simp: suffix_def)
  moreover from assms(2) obtain q where "s = q @ b" by (auto simp: suffix_def)
  ultimately show ?thesis using assms(3) by simp
qed

lemma not_both_extensions:
  "endsWith s a \<Longrightarrow> length a = length b \<Longrightarrow> a \<noteq> b \<Longrightarrow> \<not> endsWith s b"
  unfolding endsWith_def using suffix_same_length by blast

subsection \<open>Evaluation on the concrete calls\<close>

lemma generateContent_remote: "generateContent (remote answer) n mimeType base64Data = answer n"
  by (simp add: remote_def)

lemma conversion_mp3:
  "conversion (remote answer) mp3File = (Inr (asBlob mp3File, ''audio/mpeg''), [])"
proof -
  have "\<not> needsConversion mp3File" by code_simp
  then show ?thesis by (simp add: conversion_def) (simp add: mp3File_def)
qed

lemma prepare_mp3:
  "prepare (remote answer) mp3File = (Inr (''audio/mpeg'', ''AQID''), [Encoded (asBlob mp3File)])"
proof -
  have key: "API_KEY (remote answer) = Some ''key''" "''key'' \<noteq> []"
    by (simp_all add: remote_def)
  have size: "blobSize (asBlob mp3File) = 3"
    by (simp add: blobSize_def asBlob_def mp3File_def)
  have mime: "getMimeType (asBlob mp3File) (Some (name mp3File)) = ''audio/mpeg''"
    by code_simp
  have "secondPart ''data:audio/mpeg;base64,AQID'' = ''AQID''"
    by code_simp
  then have enc: "fileToGenerativePart (remote answer) (asBlob mp3File) = Inr ''AQID''"
    by (simp add: fileToGenerativePart_def remote_def)
  show ?thesis
    by (simp add: prepare_with_key [OF key conversion_mp3] size mime enc)
qed

lemma retryable_examples:
  "isRetryable unavailable" "isRetryable badSampleRate" "\<not> isRetryable badRequest"
  "messageIncludes badRequest ''400''" "messageIncludes badSampleRate ''400''"
  "\<not> messageIncludes unavailable ''400''"
  by code_simp+

lemma requests_threeRequests: "requests threeRequests = 3"
  by (simp add: threeRequests_def requests_def mp3Request_def)

lemma always_fails:
  assumes "isRetryable error"
  shows "analyzeAudio (remote (alwaysThrows error)) mp3File =
           (Inl (if messageIncludes error ''400''
                 then Error ''Invalid request. The file format might not be supported.''
                 else error), threeRequests)"
proof -
  let ?env = "remote (alwaysThrows error)"
  let ?t = "[Encoded (asBlob mp3File)]"
  have gen: "generateContent ?env n ''audio/mpeg'' ''AQID'' = Throws error" for n
    by (simp add: generateContent_remote alwaysThrows_def)
  have r0: "requests ?t = 0"
    using prepare_mp3 by (rule prepare_requests)
  have "tryRequest ?env (requests (?t @ [mp3Request, Waited 4000, mp3Request, Waited 8000]))
          ''audio/mpeg'' ''AQID'' = Inl error"
    using gen by (rule tryRequest_Throws)
  then have "requestLoop ?env ''audio/mpeg'' ''AQID'' 2
               (?t @ [mp3Request, Waited 4000, mp3Request, Waited 8000]) =
             (Inl (if messageIncludes error ''400''
                   then Error ''Invalid request. The file format might not be supported.''
                   else error),
              (?t @ [mp3Request, Waited 4000, mp3Request, Waited 8000]) @ [mp3Request])"
    unfolding mp3Request_def by (intro requestLoop_final) simp_all
  then show ?thesis
    using first_retry [OF r0 gen assms] second_retry [OF r0 gen assms]
    by (simp only: analyzeAudio_requesting [OF prepare_mp3] threeRequests_def mp3Request_def
        append_assoc append_Cons append_Nil)
qed

lemma fails_at_once:
  assumes "\<not> isRetryable error"
  shows "analyzeAudio (remote (alwaysThrows error)) mp3File =
           (Inl (if messageIncludes error ''400''
                 then Error ''Invalid request. The file format might not be supported.''
                 else error), [Encoded (asBlob mp3File), mp3Request])"
proof -
  let ?env = "remote (alwaysThrows error)"
  let ?t = "[Encoded (asBlob mp3File)]"
  have "generateContent ?env (requests ?t) ''audio/mpeg'' ''AQID'' = Throws error"
    by (simp add: generateContent_remote alwaysThrows_def)
  then have "tryRequest ?env (requests ?t) ''audio/mpeg'' ''AQID'' = Inl error"
    by (rule tryRequest_Throws)
  then have "requestLoop ?env ''audio/mpeg'' ''AQID'' 0 ?t =
             (Inl (if messageIncludes error ''400''
                   then Error ''Invalid request. The file format might not be supported.''
                   else error), ?t @ [Requested ''audio/mpeg'' ''AQID''])"
    using assms by (intro requestLoop_final) simp_all
  then show ?thesis
    by (simp add: analyzeAudio_requesting [OF prepare_mp3] mp3Request_def)
qed

lemma conversion_plain:
  assumes "type file = ''audio/mpeg''" and "toLowerCase (name file) = n"
    and "\<not> endsWith n ''.mp4''" and "\<not> endsWith n ''.m4a''"
  shows "conversion env file = (Inr (asBlob file, ''audio/mpeg''), [])"
proof -
  have "\<not> stringIncludes ''audio/mpeg'' ''mp4''" by code_simp
  with assms have "\<not> needsConversion file" by (simp add: needsConversion_def)
  with assms(1) show ?thesis by (simp add: conversion_def)
qed

lemma key_remote: "API_KEY (remote answer) = Some ''key''" "''key'' \<noteq> []"
  by (simp_all add: remote_def)

subsection \<open>Retry, backoff and terminal failures\<close>

text \<open>
  C2. When the call reaches the retry loop, the first two requests fail with status 503 and
  the third returns non-empty text that the parser accepts, \<^verbatim>\<open>analyzeAudio\<close> returns
  the parsed result; it issues exactly three requests, and waits 4000 ms after the first
  failure and 8000 ms after the second.
\<close>

theorem two_unavailable_then_success:
  assumes prep: "prepare env input = (Inr (mimeType, base64Data), trace)"
    and first: "generateContent env 0 mimeType base64Data = Throws e0" "status e0 = Some 503"
    and second: "generateContent env 1 mimeType base64Data = Throws e1" "status e1 = Some 503"
    and third: "generateContent env 2 mimeType base64Data = Returns (Some text)" "text \<noteq> []"
      "cleanAndParseJSON (JSON_parse env) text = Some result"
  shows "analyzeAudio env input =
           (Inr result,
            trace @ [Requested mimeType base64Data, Waited 4000,
                     Requested mimeType base64Data, Waited 8000,
                     Requested mimeType base64Data])"
proof -
  let ?R = "Requested mimeType base64Data"
  have r0: "requests trace = 0"
    using prep by (rule prepare_requests)
  have retry0: "isRetryable e0" and retry1: "isRetryable e1"
    using first(2) second(2) by (simp_all add: isRetryable_def)
  have "tryRequest env (requests (trace @ [?R, Waited 4000, ?R, Waited 8000])) mimeType base64Data
          = Inr result"
    using third by (simp add: requests_after_two [OF r0] tryRequest_parsed)
  then have "requestLoop env mimeType base64Data 2 (trace @ [?R, Waited 4000, ?R, Waited 8000])
          = (Inr result, (trace @ [?R, Waited 4000, ?R, Waited 8000]) @ [?R])"
    by (intro requestLoop_success) simp_all
  then show ?thesis
    by (simp only: analyzeAudio_requesting [OF prep] first_retry [OF r0 first(1) retry0]
        second_retry [OF r0 second(1) retry1] append_assoc append_Cons append_Nil)
qed

theorem two_unavailable_then_success_witness:
  \<open>analyzeAudio (remote twiceUnavailable) mp3File =
     (Inr (JObject []),
      [Encoded (asBlob mp3File),
       Requested ''audio/mpeg'' ''AQID'', Waited 4000,
       Requested ''audio/mpeg'' ''AQID'', Waited 8000,
       Requested ''audio/mpeg'' ''AQID''])
   \<and> status unavailable = Some 503
   \<and> cleanAndParseJSON JSON_text ''{}'' = Some (JObject [])\<close>
proof -
  let ?env = "remote twiceUnavailable"
  have g0: "generateContent ?env 0 ''audio/mpeg'' ''AQID'' = Throws unavailable"
    and g1: "generateContent ?env 1 ''audio/mpeg'' ''AQID'' = Throws unavailable"
    and g2: \<open>generateContent ?env 2 ''audio/mpeg'' ''AQID'' = Returns (Some ''{}'')\<close>
    by (simp_all add: generateContent_remote twiceUnavailable_def)
  have st: "status unavailable = Some 503"
    by (simp add: unavailable_def)
  have ne: \<open>''{}'' \<noteq> []\<close> by simp
  have parsed: \<open>cleanAndParseJSON JSON_text ''{}'' = Some (JObject [])\<close>
    by code_simp
  then have parsed': \<open>cleanAndParseJSON (JSON_parse ?env) ''{}'' = Some (JObject [])\<close>
    by (simp add: remote_def)
  from two_unavailable_then_success [OF prepare_mp3 g0 st g1 st g2 ne parsed']
  show ?thesis using st parsed by simp
qed

text \<open>
  C1 (as amended). When the call reaches the retry loop and all three attempts fail with
  retryable errors, \<^verbatim>\<open>analyzeAudio\<close> issues exactly three requests, with waits of 4000
  and 8000 ms between them, and fails with the third attempt's error itself, or with the
  invalid-request error when that error's message contains \<^verbatim>\<open>400\<close>. The error of the
  throw that follows the loop is not the outcome.
\<close>

theorem three_retryable_failures:
  assumes prep: "prepare env input = (Inr (mimeType, base64Data), trace)"
    and first: "generateContent env 0 mimeType base64Data = Throws e0" "isRetryable e0"
    and second: "generateContent env 1 mimeType base64Data = Throws e1" "isRetryable e1"
    and third: "generateContent env 2 mimeType base64Data = Throws e2" "isRetryable e2"
  shows "analyzeAudio env input =
           (Inl (if messageIncludes e2 ''400''
                 then Error ''Invalid request. The file format might not be supported.''
                 else e2),
            trace @ [Requested mimeType base64Data, Waited 4000,
                     Requested mimeType base64Data, Waited 8000,
                     Requested mimeType base64Data])
         \<and> fst (analyzeAudio env input) \<noteq> Inl (Error ''Analysis failed after multiple attempts.'')"
proof -
  let ?R = "Requested mimeType base64Data"
  let ?out = "if messageIncludes e2 ''400''
              then Error ''Invalid request. The file format might not be supported.'' else e2"
  have r0: "requests trace = 0"
    using prep by (rule prepare_requests)
  have "tryRequest env (requests (trace @ [?R, Waited 4000, ?R, Waited 8000])) mimeType base64Data
          = Inl e2"
    using third(1) by (simp add: requests_after_two [OF r0] tryRequest_Throws)
  then have "requestLoop env mimeType base64Data 2 (trace @ [?R, Waited 4000, ?R, Waited 8000])
          = (Inl ?out, (trace @ [?R, Waited 4000, ?R, Waited 8000]) @ [?R])"
    by (intro requestLoop_final) simp_all
  then have res: "analyzeAudio env input =
      (Inl ?out, trace @ [?R, Waited 4000, ?R, Waited 8000, ?R])"
    by (simp only: analyzeAudio_requesting [OF prep] first_retry [OF r0 first]
        second_retry [OF r0 second] append_assoc append_Cons append_Nil)
  have "\<not> isRetryable (Error ''Analysis failed after multiple attempts.'')"
    by code_simp
  with third(2) have "e2 \<noteq> Error ''Analysis failed after multiple attempts.''"
    by auto
  moreover have "Error ''Invalid request. The file format might not be supported.''
                   \<noteq> Error ''Analysis failed after multiple attempts.''"
    by (simp add: Error_def)
  ultimately have "?out \<noteq> Error ''Analysis failed after multiple attempts.''"
    by simp
  with res show ?thesis by simp
qed

theorem three_retryable_failures_witness:
  "analyzeAudio (remote (alwaysThrows badSampleRate)) mp3File =
     (Inl (Error ''Invalid request. The file format might not be supported.''),
      [Encoded (asBlob mp3File),
       Requested ''audio/mpeg'' ''AQID'', Waited 4000,
       Requested ''audio/mpeg'' ''AQID'', Waited 8000,
       Requested ''audio/mpeg'' ''AQID''])
   \<and> isRetryable badSampleRate"
proof -
  let ?env = "remote (alwaysThrows badSampleRate)"
  have gen: "generateContent ?env n ''audio/mpeg'' ''AQID'' = Throws badSampleRate" for n
    by (simp add: generateContent_remote alwaysThrows_def)
  from three_retryable_failures [OF prepare_mp3 gen retryable_examples(2)
      gen retryable_examples(2) gen retryable_examples(2)]
  show ?thesis
    using retryable_examples(2,5) by simp
qed

text \<open>
  C1 as stated fails: when every request is answered with status 503, the call ends with
  that error, not with the message \<^verbatim>\<open>Analysis failed after multiple attempts.\<close>
\<close>

theorem exhaustion_counterexample:
  "analyzeAudio (remote (alwaysThrows unavailable)) mp3File = (Inl unavailable, threeRequests)
   \<and> unavailable \<noteq> Error ''Analysis failed after multiple attempts.''"
proof -
  have "analyzeAudio (remote (alwaysThrows unavailable)) mp3File = (Inl unavailable, threeRequests)"
    using always_fails [OF retryable_examples(1)] retryable_examples(6) by simp
  moreover have "unavailable \<noteq> Error ''Analysis failed after multiple attempts.''"
    by (simp add: unavailable_def Error_def)
  ultimately show ?thesis by simp
qed

text \<open>
  C3 (as amended). When the call reaches the retry loop and the first request fails with an
  error whose message contains \<^verbatim>\<open>400\<close> and which is not retryable (neither its message
  nor its status signals 500 or 503), \<^verbatim>\<open>analyzeAudio\<close> fails on that attempt with the
  invalid-request error and issues no further request.
\<close>

theorem invalid_request_fails_at_once:
  assumes prep: "prepare env input = (Inr (mimeType, base64Data), trace)"
    and thrown: "generateContent env 0 mimeType base64Data = Throws error"
    and bad: "messageIncludes error ''400''"
    and fatal: "\<not> isRetryable error"
  shows "analyzeAudio env input =
           (Inl (Error ''Invalid request. The file format might not be supported.''),
            trace @ [Requested mimeType base64Data])"
proof -
  have r0: "requests trace = 0"
    using prep by (rule prepare_requests)
  then have "tryRequest env (requests trace) mimeType base64Data = Inl error"
    using thrown by (simp add: tryRequest_Throws)
  then have "requestLoop env mimeType base64Data 0 trace =
      (Inl (if messageIncludes error ''400''
            then Error ''Invalid request. The file format might not be supported.'' else error),
       trace @ [Requested mimeType base64Data])"
    using fatal by (intro requestLoop_final) simp_all
  with bad show ?thesis
    by (simp add: analyzeAudio_requesting [OF prep])
qed

theorem invalid_request_fails_at_once_witness:
  "analyzeAudio (remote (alwaysThrows badRequest)) mp3File =
     (Inl (Error ''Invalid request. The file format might not be supported.''),
      [Encoded (asBlob mp3File), Requested ''audio/mpeg'' ''AQID''])
   \<and> messageIncludes badRequest ''400'' \<and> status badRequest = Some 400"
proof -
  let ?env = "remote (alwaysThrows badRequest)"
  have gen: "generateContent ?env 0 ''audio/mpeg'' ''AQID'' = Throws badRequest"
    by (simp add: generateContent_remote alwaysThrows_def)
  from invalid_request_fails_at_once [OF prepare_mp3 gen retryable_examples(4,3)]
  show ?thesis
    using retryable_examples(4) by (simp add: badRequest_def)
qed

text \<open>
  C3 as stated fails for a status-400 error whose message also contains \<^verbatim>\<open>500\<close>: the
  retry test comes first and looks for that substring, so the request is issued three
  times before the invalid-request error is raised. And a status-400 error whose message
  does not contain \<^verbatim>\<open>400\<close> is rethrown as it is: the 400 test reads the message only.
\<close>

theorem invalid_request_counterexample:
  "status badSampleRate = Some 400
   \<and> analyzeAudio (remote (alwaysThrows badSampleRate)) mp3File =
       (Inl (Error ''Invalid request. The file format might not be supported.''), threeRequests)
   \<and> requests threeRequests = 3
   \<and> status plainBadRequest = Some 400
   \<and> analyzeAudio (remote (alwaysThrows plainBadRequest)) mp3File =
       (Inl plainBadRequest, [Encoded (asBlob mp3File), mp3Request])
   \<and> plainBadRequest \<noteq> Error ''Invalid request. The file format might not be supported.''"
proof -
  have "analyzeAudio (remote (alwaysThrows badSampleRate)) mp3File =
       (Inl (Error ''Invalid request. The file format might not be supported.''), threeRequests)"
    using always_fails [OF retryable_examples(2)] retryable_examples(5) by simp
  moreover have "\<not> isRetryable plainBadRequest" "\<not> messageIncludes plainBadRequest ''400''"
    by code_simp+
  then have "analyzeAudio (remote (alwaysThrows plainBadRequest)) mp3File =
       (Inl plainBadRequest, [Encoded (asBlob mp3File), mp3Request])"
    using fails_at_once [of plainBadRequest] by simp
  moreover have "plainBadRequest \<noteq> Error ''Invalid request. The file format might not be supported.''"
    by (simp add: plainBadRequest_def Error_def)
  ultimately show ?thesis
    using requests_threeRequests by (simp add: badSampleRate_def plainBadRequest_def)
qed

text \<open>
  C9. When the call reaches the retry loop, the attempts before the \<open>k\<close>-th were retried
  and the \<open>k\<close>-th request returns no text or the empty text, \<^verbatim>\<open>analyzeAudio\<close> fails
  with \<^verbatim>\<open>Empty response from Gemini\<close> on that attempt: the request is the last event,
  no wait and no further request follow, and the error is not retryable.
\<close>

theorem empty_response_is_terminal:
  assumes prep: "prepare env input = (Inr (mimeType, base64Data), trace)"
    and k: "k < 3"
    and earlier: "\<forall>j<k. \<exists>error. generateContent env j mimeType base64Data = Throws error
                          \<and> isRetryable error"
    and empty: "generateContent env k mimeType base64Data = Returns text"
      "text = None \<or> text = Some []"
  shows "analyzeAudio env input =
           (Inl (Error ''Empty response from Gemini''),
            trace @ retries mimeType base64Data k @ [Requested mimeType base64Data])
         \<and> \<not> isRetryable (Error ''Empty response from Gemini'')"
proof -
  let ?R = "Requested mimeType base64Data"
  let ?E = "Error ''Empty response from Gemini''"
  have r0: "requests trace = 0"
    using prep by (rule prepare_requests)
  have attempt_k: "tryRequest env k mimeType base64Data = Inl ?E"
    using empty by (rule tryRequest_empty)
  have final: "requestLoop env mimeType base64Data k t = (Inl ?E, t @ [?R])"
    if "requests t = k" for t
  proof -
    from that attempt_k have "tryRequest env (requests t) mimeType base64Data = Inl ?E" by simp
    with k have "requestLoop env mimeType base64Data k t =
        (Inl (if messageIncludes ?E ''400''
              then Error ''Invalid request. The file format might not be supported.'' else ?E),
         t @ [?R])"
      by (intro requestLoop_final) (simp_all add: not_retryable_Error_empty)
    then show ?thesis by (simp add: not_400_Error_empty)
  qed
  from k consider "k = 0" | "k = 1" | "k = 2" by linarith
  then have "analyzeAudio env input = (Inl ?E, trace @ retries mimeType base64Data k @ [?R])"
  proof cases
    case 1
    with r0 have "requests trace = k" by simp
    from final [OF this] 1 show ?thesis
      by (simp only: analyzeAudio_requesting [OF prep] retries_0 append_Nil)
  next
    case 2
    have "(0::nat) < k" using 2 by simp
    with earlier obtain e0
      where e0: "generateContent env 0 mimeType base64Data = Throws e0" "isRetryable e0"
      by blast
    have "requests (trace @ [?R, Waited 4000]) = k"
      using 2 requests_after_one [OF r0] by simp
    from final [OF this] 2 show ?thesis
      by (simp only: analyzeAudio_requesting [OF prep] first_retry [OF r0 e0] retries_1
          append_assoc append_Cons append_Nil)
  next
    case 3
    have "(0::nat) < k" and "(1::nat) < k" using 3 by simp_all
    with earlier obtain e0 e1
      where e0: "generateContent env 0 mimeType base64Data = Throws e0" "isRetryable e0"
        and e1: "generateContent env 1 mimeType base64Data = Throws e1" "isRetryable e1"
      by blast
    have "requests (trace @ [?R, Waited 4000, ?R, Waited 8000]) = k"
      using 3 requests_after_two [OF r0] by simp
    from final [OF this] 3 show ?thesis
      by (simp only: analyzeAudio_requesting [OF prep] first_retry [OF r0 e0]
          second_retry [OF r0 e1] retries_2 append_assoc append_Cons append_Nil)
  qed
  then show ?thesis
    by (simp add: not_retryable_Error_empty)
qed

theorem empty_response_is_terminal_witness:
  "analyzeAudio (remote unavailableThenEmpty) mp3File =
     (Inl (Error ''Empty response from Gemini''),
      [Encoded (asBlob mp3File),
       Requested ''audio/mpeg'' ''AQID'', Waited 4000,
       Requested ''audio/mpeg'' ''AQID''])
   \<and> generateContent (remote unavailableThenEmpty) 1 ''audio/mpeg'' ''AQID'' = Returns (Some [])"
proof -
  let ?env = "remote unavailableThenEmpty"
  have g0: "\<forall>j<1. \<exists>error. generateContent ?env j ''audio/mpeg'' ''AQID'' = Throws error
              \<and> isRetryable error"
    using retryable_examples(1) by (simp add: generateContent_remote unavailableThenEmpty_def)
  have g1: "generateContent ?env 1 ''audio/mpeg'' ''AQID'' = Returns (Some [])"
    by (simp add: generateContent_remote unavailableThenEmpty_def)
  have k: "(1::nat) < 3" by simp
  from empty_response_is_terminal [OF prepare_mp3 k g0 g1]
  show ?thesis using g1 by (simp add: retries_def)
qed

subsection \<open>Conversion and the size limit\<close>

lemma digit_cases: "d < 10 \<Longrightarrow> d \<in> {0, 1, 2, 3, 4, 5, 6, 7, 8, 9 :: nat}"
  by auto

lemma digitChar_digit:
  assumes "d < 10"
  shows "decimalDigit (digitChar d)" and "digitValue (digitChar d) = d"
    and "(digitChar d = CHR ''0'') = (d = 0)"
  using digit_cases [OF assms]
  by (auto simp: decimalDigit_def digitValue_def digitChar_def)

lemma decimal_digits: "list_all decimalDigit (decimal n)"
  by (induction n rule: decimal.induct) (subst decimal.simps, simp add: digitChar_digit)

lemma decimal_nonempty: "decimal n \<noteq> []"
  by (subst decimal.simps) simp

lemma readDecimal_snoc: "readDecimal (s @ [c]) = 10 * readDecimal s + digitValue c"
  by (simp add: readDecimal_def)

lemma readDecimal_decimal: "readDecimal (decimal n) = n"
proof (induction n rule: decimal.induct)
  case (1 n)
  show ?case
  proof (cases "n < 10")
    case True
    then show ?thesis
      by (subst decimal.simps) (simp add: readDecimal_def digitChar_digit)
  next
    case False
    with 1 have "readDecimal (decimal (n div 10)) = n div 10" by simp
    with False show ?thesis
      by (subst decimal.simps) (simp add: readDecimal_snoc digitChar_digit)
  qed
qed

lemma decimal_leading: "0 < n \<Longrightarrow> hd (decimal n) \<noteq> CHR ''0''"
proof (induction n rule: decimal.induct)
  case (1 n)
  show ?case
  proof (cases "n < 10")
    case True
    with 1(2) show ?thesis
      by (subst decimal.simps) (simp add: digitChar_digit)
  next
    case False
    with 1 have "hd (decimal (n div 10)) \<noteq> CHR ''0''" by simp
    with False show ?thesis
      by (subst decimal.simps) (simp add: decimal_nonempty)
  qed
qed

lemma toFixed1MB_reads:
  "\<exists>whole tenth. toFixed1MB n = whole @ ''.'' @ [tenth]
     \<and> whole \<noteq> [] \<and> list_all decimalDigit (whole @ [tenth])
     \<and> (10 * 1024 * 1024 < n \<longrightarrow> hd whole \<noteq> CHR ''0'')
     \<and> (real (readDecimal whole) + real (digitValue tenth) / 10 - 1 / 20 \<le> real n / (1024 * 1024))
     \<and> (real n / (1024 * 1024) < real (readDecimal whole) + real (digitValue tenth) / 10 + 1 / 20)"
proof -
  define t where "t = (20 * n + 1048576) div 2097152"
  let ?whole = "decimal (t div 10)" and ?tenth = "digitChar (t mod 10)"
  have less: "t mod 10 < 10" by simp
  have "decimal (t mod 10) = [?tenth]"
    by (subst decimal.simps) simp
  then have shape: "toFixed1MB n = ?whole @ ''.'' @ [?tenth]"
    by (simp add: toFixed1MB_def t_def Let_def)
  have digits: "list_all decimalDigit (?whole @ [?tenth])"
    by (simp add: decimal_digits digitChar_digit(1) [OF less])
  have lead: "hd ?whole \<noteq> CHR ''0''" if "10 * 1024 * 1024 < n"
  proof -
    from that have "10 \<le> t" unfolding t_def by simp
    then have "0 < t div 10" by simp
    then show ?thesis by (rule decimal_leading)
  qed
  have "10 * (t div 10) + t mod 10 = t" by simp
  then have "real (t div 10) + real (t mod 10) / 10 = real t / 10"
    by (metis (no_types) add_divide_distrib nonzero_mult_div_cancel_left of_nat_add of_nat_mult
        of_nat_numeral zero_neq_numeral)
  then have val: "real (readDecimal ?whole) + real (digitValue ?tenth) / 10 = real t / 10"
    by (simp add: readDecimal_decimal digitChar_digit(2) [OF less])
  have lo: "2097152 * t \<le> 20 * n + 1048576"
    unfolding t_def by simp
  have "(20 * n + 1048576) mod 2097152 < 2097152"
    by simp
  with div_mult_mod_eq [of "20 * n + 1048576" 2097152]
  have hi: "20 * n + 1048576 < 2097152 * t + 2097152"
    unfolding t_def by linarith
  from lo have "real (2097152 * t) \<le> real (20 * n + 1048576)"
    by (rule of_nat_mono)
  then have lo': "real t / 10 - 1 / 20 \<le> real n / (1024 * 1024)"
    by (simp add: field_simps)
  from hi have "real (20 * n + 1048576) < real (2097152 * t + 2097152)"
    by (simp only: of_nat_less_iff)
  then have hi': "real n / (1024 * 1024) < real t / 10 + 1 / 20"
    by (simp add: field_simps)
  from shape digits lead lo' hi' val decimal_nonempty [of "t div 10"]
  show ?thesis
    by (intro exI [of _ ?whole] exI [of _ ?tenth]) (simp del: list_all_append)
qed

text \<open>
  C4. With the API key present and a payload left by the conversion step: if its size
  exceeds \<open>10 \<times> 1024 \<times> 1024\<close> bytes, \<^verbatim>\<open>analyzeAudio\<close> fails with the size error and
  the only events are those of the conversion (no encoding, no request). The message of
  that error is \<^verbatim>\<open>Processed file size (\<close>, a decimal numeral with one digit after the point
  and no leading zero, and \<^verbatim>\<open>MB) exceeds the 10MB limit. Please upload a shorter recording.\<close>;
  the numeral is the size in units of \<open>1024 \<times> 1024\<close> bytes rounded to the nearest tenth,
  upwards on a tie. Otherwise, in particular at exactly 10 MiB, the call goes on to encode
  that payload.
\<close>

theorem size_limit:
  assumes key: "API_KEY env = Some k" "k \<noteq> []"
    and conv: "conversion env input = (Inr (finalBlob, finalMimeType), trace)"
  shows "if blobSize finalBlob > 10 * 1024 * 1024
         then analyzeAudio env input =
                (Inl (Error (sizeLimitMessage (blobSize finalBlob))), trace)
              \<and> (\<exists>whole tenth.
                    sizeLimitMessage (blobSize finalBlob) =
                      ''Processed file size ('' @ whole @ ''.'' @ [tenth] @
                      ''MB) exceeds the 10MB limit. Please upload a shorter recording.''
                    \<and> whole \<noteq> [] \<and> list_all decimalDigit (whole @ [tenth])
                    \<and> hd whole \<noteq> CHR ''0''
                    \<and> real (readDecimal whole) + real (digitValue tenth) / 10 - 1 / 20
                        \<le> real (blobSize finalBlob) / (1024 * 1024)
                    \<and> real (blobSize finalBlob) / (1024 * 1024)
                        < real (readDecimal whole) + real (digitValue tenth) / 10 + 1 / 20)
              \<and> list_all isConverted trace
         else prefix (trace @ [Encoded finalBlob]) (snd (analyzeAudio env input))"
proof (cases "blobSize finalBlob > 10 * 1024 * 1024")
  case True
  with prepare_with_key [OF key conv]
  have "analyzeAudio env input = (Inl (Error (sizeLimitMessage (blobSize finalBlob))), trace)"
    by (simp add: analyzeAudio_def)
  moreover from toFixed1MB_reads [of "blobSize finalBlob"] True
  have "\<exists>whole tenth.
          sizeLimitMessage (blobSize finalBlob) =
            ''Processed file size ('' @ whole @ ''.'' @ [tenth] @
            ''MB) exceeds the 10MB limit. Please upload a shorter recording.''
          \<and> whole \<noteq> [] \<and> list_all decimalDigit (whole @ [tenth])
          \<and> hd whole \<noteq> CHR ''0''
          \<and> real (readDecimal whole) + real (digitValue tenth) / 10 - 1 / 20
              \<le> real (blobSize finalBlob) / (1024 * 1024)
          \<and> real (blobSize finalBlob) / (1024 * 1024)
              < real (readDecimal whole) + real (digitValue tenth) / 10 + 1 / 20"
    unfolding sizeLimitMessage_def by (elim exE conjE, intro exI conjI) simp_all
  moreover have "list_all isConverted trace"
    using conversion_trace [of env input] conv by (auto split: if_splits)
  ultimately show ?thesis using True by (simp only: if_True conj_assoc simp_thms)
next
  case False
  with prepare_with_key [OF key conv]
  have "snd (prepare env input) = trace @ [Encoded finalBlob]"
    by (simp split: sum.splits)
  with analyzeAudio_trace [of env input] have
    "prefix (trace @ [Encoded finalBlob]) (snd (analyzeAudio env input))"
    by (auto simp: prefix_def)
  with False show ?thesis by simp
qed

theorem size_limit_witness:
  "blobSize (asBlob bigFile) = 10485761
   \<and> analyzeAudio (remote twiceUnavailable) bigFile =
       (Inl (Error ''Processed file size (10.0MB) exceeds the 10MB limit. Please upload a shorter recording.''), [])
   \<and> blobSize (asBlob hugeFile) = 123456789
   \<and> analyzeAudio (remote twiceUnavailable) hugeFile =
       (Inl (Error ''Processed file size (117.7MB) exceeds the 10MB limit. Please upload a shorter recording.''), [])
   \<and> blobSize (asBlob limitFile) = 10485760
   \<and> prefix [Encoded (asBlob limitFile)] (snd (analyzeAudio (remote twiceUnavailable) limitFile))"
proof -
  let ?env = "remote twiceUnavailable"
  have big: "blobSize (asBlob bigFile) = 10485761"
    by (simp add: blobSize_def asBlob_def bigFile_def)
  have huge: "blobSize (asBlob hugeFile) = 123456789"
    by (simp add: blobSize_def asBlob_def hugeFile_def)
  have limit: "blobSize (asBlob limitFile) = 10485760"
    by (simp add: blobSize_def asBlob_def limitFile_def)
  have names: "toLowerCase ''big.mp3'' = ''big.mp3''" "toLowerCase ''limit.mp3'' = ''limit.mp3''"
    "toLowerCase ''huge.mp3'' = ''huge.mp3''"
    "\<not> endsWith ''big.mp3'' ''.mp4''" "\<not> endsWith ''big.mp3'' ''.m4a''"
    "\<not> endsWith ''huge.mp3'' ''.mp4''" "\<not> endsWith ''huge.mp3'' ''.m4a''"
    "\<not> endsWith ''limit.mp3'' ''.mp4''" "\<not> endsWith ''limit.mp3'' ''.m4a''"
    by code_simp+
  have cb: "conversion ?env bigFile = (Inr (asBlob bigFile, ''audio/mpeg''), [])"
    by (rule conversion_plain [where n = "''big.mp3''"]) (simp_all add: bigFile_def names)
  have ch: "conversion ?env hugeFile = (Inr (asBlob hugeFile, ''audio/mpeg''), [])"
    by (rule conversion_plain [where n = "''huge.mp3''"]) (simp_all add: hugeFile_def names)
  have cl: "conversion ?env limitFile = (Inr (asBlob limitFile, ''audio/mpeg''), [])"
    by (rule conversion_plain [where n = "''limit.mp3''"]) (simp_all add: limitFile_def names)
  have "toFixed1MB 10485761 = ''10.0''"
    by (simp add: toFixed1MB_def digitChar_def decimal.simps [of 10] decimal.simps [of "Suc 0"]
        decimal.simps [of 0])
  then have msg: "sizeLimitMessage 10485761 =
      ''Processed file size (10.0MB) exceeds the 10MB limit. Please upload a shorter recording.''"
    by (simp add: sizeLimitMessage_def)
  have "toFixed1MB 123456789 = ''117.7''"
    by (simp add: toFixed1MB_def digitChar_def decimal.simps [of 117] decimal.simps [of 11]
        decimal.simps [of "Suc 0"] decimal.simps [of 7])
  then have msg': "sizeLimitMessage 123456789 =
      ''Processed file size (117.7MB) exceeds the 10MB limit. Please upload a shorter recording.''"
    by (simp add: sizeLimitMessage_def)
  from size_limit [OF key_remote cb]
  have first: "analyzeAudio ?env bigFile = (Inl (Error (sizeLimitMessage 10485761)), [])"
    by (simp add: big)
  from size_limit [OF key_remote ch]
  have second: "analyzeAudio ?env hugeFile = (Inl (Error (sizeLimitMessage 123456789)), [])"
    by (simp add: huge)
  from size_limit [OF key_remote cl]
  have third: "prefix [Encoded (asBlob limitFile)] (snd (analyzeAudio ?env limitFile))"
    by (simp add: limit)
  from first second third show ?thesis
    by (simp only: big huge limit msg msg' simp_thms)
qed

text \<open>
  C5. The conversion is attempted if and only if the declared type contains \<^verbatim>\<open>mp4\<close> or
  the lower-cased file name ends in \<^verbatim>\<open>.mp4\<close> or \<^verbatim>\<open>.m4a\<close>; so any spelling of these
  extensions triggers it, and a name ending in \<^verbatim>\<open>.mp3\<close> or \<^verbatim>\<open>.wav\<close> with a type
  without \<^verbatim>\<open>mp4\<close> does not. Without conversion the payload is the input's own bytes and
  declared type, and these are what a call with its API key encodes and sends. With
  conversion the payload is the converter's container with the type \<^verbatim>\<open>audio/wav\<close>, which
  the call encodes and sends under that type, or the call ends with the conversion error
  when the converter fails. In a whole call that has its API key, the conversion events
  are exactly those of this decision.
\<close>

theorem conversion_decision:
  "((Converted input \<in> set (snd (conversion env input))) =
      (stringIncludes (type input) ''mp4''
       \<or> endsWith (toLowerCase (name input)) ''.mp4''
       \<or> endsWith (toLowerCase (name input)) ''.m4a''))
   \<and> (\<not> (stringIncludes (type input) ''mp4''
          \<or> endsWith (toLowerCase (name input)) ''.mp4''
          \<or> endsWith (toLowerCase (name input)) ''.m4a'')
        \<longrightarrow> conversion env input = (Inr (asBlob input, type input), []))
   \<and> ((endsWith (toLowerCase (name input)) ''.mp3'' \<or> endsWith (toLowerCase (name input)) ''.wav'')
        \<and> \<not> stringIncludes (type input) ''mp4''
        \<longrightarrow> conversion env input = (Inr (asBlob input, type input), []))
   \<and> ((toLowerCase ext = ''.mp4'' \<or> toLowerCase ext = ''.m4a'') \<and> name input = stem @ ext
        \<longrightarrow> Converted input \<in> set (snd (conversion env input)))
   \<and> (API_KEY env = Some k \<and> k \<noteq> []
        \<longrightarrow> filter isConverted (snd (analyzeAudio env input)) =
              (if stringIncludes (type input) ''mp4''
                  \<or> endsWith (toLowerCase (name input)) ''.mp4''
                  \<or> endsWith (toLowerCase (name input)) ''.m4a''
               then [Converted input] else []))
   \<and> ((stringIncludes (type input) ''mp4''
         \<or> endsWith (toLowerCase (name input)) ''.mp4''
         \<or> endsWith (toLowerCase (name input)) ''.m4a'')
        \<and> convertMp4ToWav env input = Some wav
        \<longrightarrow> conversion env input = (Inr (wav, ''audio/wav''), [Converted input])
            \<and> type wav = ''audio/wav'')
   \<and> ((stringIncludes (type input) ''mp4''
         \<or> endsWith (toLowerCase (name input)) ''.mp4''
         \<or> endsWith (toLowerCase (name input)) ''.m4a'')
        \<and> convertMp4ToWav env input = None
        \<longrightarrow> conversion env input =
              (Inl (Error ''Failed to convert audio file. The file might be corrupted or incompatible.''),
               [Converted input])
            \<and> (API_KEY env = Some k \<and> k \<noteq> []
                 \<longrightarrow> analyzeAudio env input =
                       (Inl (Error ''Failed to convert audio file. The file might be corrupted or incompatible.''),
                        [Converted input])))
   \<and> (API_KEY env = Some k \<and> k \<noteq> []
        \<and> (stringIncludes (type input) ''mp4''
             \<or> endsWith (toLowerCase (name input)) ''.mp4''
             \<or> endsWith (toLowerCase (name input)) ''.m4a'')
        \<and> convertMp4ToWav env input = Some wav
        \<and> blobSize wav \<le> 10 * 1024 * 1024
        \<and> fileToGenerativePart env wav = Inr base64Data
        \<longrightarrow> analyzeAudio env input =
              requestLoop env ''audio/wav'' base64Data 0 [Converted input, Encoded wav])
   \<and> (API_KEY env = Some k \<and> k \<noteq> []
        \<and> \<not> (stringIncludes (type input) ''mp4''
               \<or> endsWith (toLowerCase (name input)) ''.mp4''
               \<or> endsWith (toLowerCase (name input)) ''.m4a'')
        \<and> blobSize (asBlob input) \<le> 10 * 1024 * 1024
        \<and> fileToGenerativePart env (asBlob input) = Inr base64Data
        \<longrightarrow> analyzeAudio env input =
              requestLoop env
                (if type input = ''audio/wav'' then ''audio/wav''
                 else getMimeType (asBlob input) (Some (name input)))
                base64Data 0 [Encoded (asBlob input)])"
proof -
  let ?n = "toLowerCase (name input)"
  let ?failed = "Error ''Failed to convert audio file. The file might be corrupted or incompatible.''"
  have taken: "(Converted input \<in> set (snd (conversion env input))) = needsConversion input"
    by (simp add: conversion_trace)
  have skipped: "conversion env input = (Inr (asBlob input, type input), [])"
    if "\<not> needsConversion input"
    using that by (simp add: conversion_def)
  have other: "\<not> needsConversion input"
    if e: "endsWith ?n ''.mp3'' \<or> endsWith ?n ''.wav''" and t: "\<not> stringIncludes (type input) ''mp4''"
  proof -
    from e have "\<not> endsWith ?n ''.mp4'' \<and> \<not> endsWith ?n ''.m4a''"
      by (auto dest: not_both_extensions [where b = "''.mp4''"]
          not_both_extensions [where b = "''.m4a''"])
    with t show ?thesis by (simp add: needsConversion_def)
  qed
  have anycase: "needsConversion input"
    if "toLowerCase ext = ''.mp4'' \<or> toLowerCase ext = ''.m4a''" and "name input = stem @ ext"
  proof -
    from that(2) have "?n = toLowerCase stem @ toLowerCase ext"
      by (simp add: toLowerCase_def)
    with that(1) show ?thesis
      by (auto simp: needsConversion_def endsWith_def suffix_def)
  qed
  have whole: "filter isConverted (snd (analyzeAudio env input)) =
      (if needsConversion input then [Converted input] else [])"
    if "API_KEY env = Some k" and "k \<noteq> []"
    using that by (rule analyzeAudio_converted)
  have converted: "conversion env input = (Inr (wav, ''audio/wav''), [Converted input])
      \<and> type wav = ''audio/wav''"
    if "needsConversion input" and "convertMp4ToWav env input = Some wav"
  proof -
    from that(2) have "type wav = ''audio/wav''"
      by (auto simp: convertMp4ToWav_def audioBufferToWav_closed split: option.splits)
    with that show ?thesis by (simp add: conversion_def)
  qed
  have failed: "conversion env input = (Inl ?failed, [Converted input])"
    if "needsConversion input" and "convertMp4ToWav env input = None"
    using that by (simp add: conversion_def)
  have failedCall: "analyzeAudio env input = (Inl ?failed, [Converted input])"
    if "needsConversion input" and "convertMp4ToWav env input = None"
      and "API_KEY env = Some k" and "k \<noteq> []"
    using that failed by (simp add: analyzeAudio_def prepare_def)
  have sentWav: "analyzeAudio env input =
      requestLoop env ''audio/wav'' base64Data 0 [Converted input, Encoded wav]"
    if "API_KEY env = Some k" and "k \<noteq> []" and "needsConversion input"
      and "convertMp4ToWav env input = Some wav" and "blobSize wav \<le> 10 * 1024 * 1024"
      and "fileToGenerativePart env wav = Inr base64Data"
  proof -
    from converted [OF that(3,4)]
    have "conversion env input = (Inr (wav, ''audio/wav''), [Converted input])" ..
    from prepare_with_key [OF that(1,2) this] that(5,6) show ?thesis
      by (simp add: analyzeAudio_def)
  qed
  have sentInput: "analyzeAudio env input =
      requestLoop env
        (if type input = ''audio/wav'' then ''audio/wav''
         else getMimeType (asBlob input) (Some (name input)))
        base64Data 0 [Encoded (asBlob input)]"
    if "API_KEY env = Some k" and "k \<noteq> []" and "\<not> needsConversion input"
      and "blobSize (asBlob input) \<le> 10 * 1024 * 1024"
      and "fileToGenerativePart env (asBlob input) = Inr base64Data"
  proof -
    from prepare_with_key [OF that(1,2) skipped [OF that(3)]] that(4,5) show ?thesis
      by (simp add: analyzeAudio_def)
  qed
  have needed: "needsConversion input =
      (stringIncludes (type input) ''mp4'' \<or> endsWith ?n ''.mp4'' \<or> endsWith ?n ''.m4a'')"
    by (simp add: needsConversion_def)
  show ?thesis
    unfolding needed [symmetric]
    apply (intro conjI)
    subgoal by (rule taken)
    subgoal using skipped by blast
    subgoal using other skipped by blast
    subgoal using anycase taken by blast
    subgoal using whole by blast
    subgoal using converted by blast
    subgoal using failed failedCall by blast
    subgoal using sentWav by blast
    subgoal using sentInput by blast
    done
qed

theorem conversion_decision_witness:
  "Converted m4aFile \<in> set (snd (conversion (remote twiceUnavailable) m4aFile))
   \<and> filter isConverted (snd (analyzeAudio (remote twiceUnavailable) m4aFile)) = [Converted m4aFile]
   \<and> conversion (remote twiceUnavailable) mp3File = (Inr (asBlob mp3File, type mp3File), [])
   \<and> filter isConverted (snd (analyzeAudio (remote twiceUnavailable) mp3File)) = []
   \<and> analyzeAudio (remote twiceUnavailable) m4aFile =
       (Inl (Error ''Failed to convert audio file. The file might be corrupted or incompatible.''),
        [Converted m4aFile])
   \<and> conversion studio m4aFile = (Inr (stereoWav, ''audio/wav''), [Converted m4aFile])
   \<and> analyzeAudio studio m4aFile =
       requestLoop studio ''audio/wav'' ''AQID'' 0 [Converted m4aFile, Encoded stereoWav]
   \<and> analyzeAudio (remote twiceUnavailable) mp3File =
       requestLoop (remote twiceUnavailable) ''audio/mpeg'' ''AQID'' 0 [Encoded (asBlob mp3File)]"
proof -
  let ?env = "remote twiceUnavailable"
  have m4a: "toLowerCase ''.M4A'' = ''.m4a''" "name m4aFile = ''Voice'' @ ''.M4A''"
    "endsWith (toLowerCase (name m4aFile)) ''.m4a''"
    by code_simp+
  have mp3: "endsWith (toLowerCase (name mp3File)) ''.mp3''"
    "\<not> stringIncludes (type mp3File) ''mp4''"
    "\<not> endsWith (toLowerCase (name mp3File)) ''.mp4''"
    "\<not> endsWith (toLowerCase (name mp3File)) ''.m4a''"
    by code_simp+
  have none: "convertMp4ToWav ?env m4aFile = None"
    by (simp add: convertMp4ToWav_def remote_def)
  have "sampleRate stereoBuffer = 16000" "numberOfChannels stereoBuffer = 2"
    "buffer_length stereoBuffer * numberOfChannels stereoBuffer * 2 = 8"
    by (simp_all add: stereoBuffer_def numberOfChannels_def)
  then have wav: "audioBufferToWav stereoBuffer = Some stereoWav"
    by (simp only: audioBufferToWav_closed stereoWav_def)
  then have some: "convertMp4ToWav studio m4aFile = Some stereoWav"
    by (simp add: convertMp4ToWav_def studio_def remote_def)
  have key: "API_KEY studio = Some ''key''"
    by (simp add: studio_def remote_def)
  have size: "blobSize stereoWav \<le> 10 * 1024 * 1024"
    by (simp add: blobSize_def stereoWav_def length_headerBytes length_pcmBytes)
      (simp add: stereoBuffer_def numberOfChannels_def)
  have "secondPart ''data:audio/mpeg;base64,AQID'' = ''AQID''"
    by code_simp
  then have enc: "fileToGenerativePart studio stereoWav = Inr ''AQID''"
    "fileToGenerativePart ?env (asBlob mp3File) = Inr ''AQID''"
    by (simp_all add: fileToGenerativePart_def studio_def remote_def)
  have small: "blobSize (asBlob mp3File) \<le> 10 * 1024 * 1024"
    by (simp add: blobSize_def asBlob_def mp3File_def)
  have mime: "type mp3File \<noteq> ''audio/wav''"
    "getMimeType (asBlob mp3File) (Some (name mp3File)) = ''audio/mpeg''"
    by code_simp+
  from conversion_decision [of m4aFile ?env "''.M4A''" "''Voice''" "''key''" stereoWav "''AQID''"]
  have failing: "Converted m4aFile \<in> set (snd (conversion ?env m4aFile))
      \<and> filter isConverted (snd (analyzeAudio ?env m4aFile)) = [Converted m4aFile]
      \<and> analyzeAudio ?env m4aFile =
          (Inl (Error ''Failed to convert audio file. The file might be corrupted or incompatible.''),
           [Converted m4aFile])"
    using m4a key_remote none by simp
  from conversion_decision [of m4aFile studio "''.M4A''" "''Voice''" "''key''" stereoWav "''AQID''"]
  have converting: "conversion studio m4aFile = (Inr (stereoWav, ''audio/wav''), [Converted m4aFile])
      \<and> analyzeAudio studio m4aFile =
          requestLoop studio ''audio/wav'' ''AQID'' 0 [Converted m4aFile, Encoded stereoWav]"
    using m4a some key size enc(1) by simp
  from conversion_decision [of mp3File ?env "[]" "[]" "''key''" stereoWav "''AQID''"]
  have skipping: "conversion ?env mp3File = (Inr (asBlob mp3File, type mp3File), [])
      \<and> filter isConverted (snd (analyzeAudio ?env mp3File)) = []"
    using mp3 key_remote by simp
  from conversion_decision [of mp3File ?env "[]" "[]" "''key''" stereoWav "''AQID''"]
  have sending: "analyzeAudio ?env mp3File =
      requestLoop ?env ''audio/mpeg'' ''AQID'' 0 [Encoded (asBlob mp3File)]"
    using mp3 key_remote enc(2) small mime by simp
  from failing converting skipping sending show ?thesis
    by blast
qed

end
